theory Spec2Isabelle
  imports Main "HOL-Library.Sublist"
begin

text \<open>
  \<^verbatim>\<open>gogo\<close> makes the skeleton of a Go project: given a project name, it creates the
  project directory, a fixed set of directories below it and six files rendered from
  templates, then runs \<^verbatim>\<open>git init\<close> in the new directory. This theory embeds
  \<^verbatim>\<open>main.go\<close> (the content generators, the calls on the file system, \<^verbatim>\<open>main\<close>) and
  proves what a run does.
\<close>

section \<open>Strings and formatting\<close>

text \<open>
  Go strings are byte sequences; they are modelled as \<open>string\<close> (a list of 8-bit
  characters). Every template of \<^verbatim>\<open>main.go\<close> is a raw string literal whose lines all
  end in a line feed, so a template is written as the list of its lines and
  \<open>unlines\<close> puts the line feeds back. \<open>TAB\<close> is the tab that starts the indented lines.
\<close>

definition TAB :: char where
  "TAB = CHR 0x09"

definition NL :: char where
  "NL = CHR 0x0A"

definition unlines :: "string list \<Rightarrow> string" where
  "unlines ls = concat (map (\<lambda>l. l @ [NL]) ls)"

text \<open>
  \<open>split_on d s\<close> is Go's \<^verbatim>\<open>strings.Split(s, d)\<close> for a one-byte separator: the
  pieces between the separators, empty pieces included.
\<close>

fun split_on :: "char \<Rightarrow> string \<Rightarrow> string list" where
  "split_on d [] = [[]]"
| "split_on d (c # cs) =
     (if c = d then [] # split_on d cs
      else (case split_on d cs of
              [] \<Rightarrow> [[c]]
            | w # ws \<Rightarrow> (c # w) # ws))"

text \<open>
  \<^verbatim>\<open>fmt.Sprintf\<close> on string operands, for the directives the program uses:
  \<^verbatim>\<open>%s\<close> and \<^verbatim>\<open>%v\<close> print the next operand, \<^verbatim>\<open>%%\<close> prints a percent sign.
  Any other directive, a missing operand and a left-over operand are outside the modelled
  fragment (Go prints a \<^verbatim>\<open>%!\<close> marker for them): the result is \<open>None\<close>.
\<close>

fun sprintf :: "string \<Rightarrow> string list \<Rightarrow> string option" where
  "sprintf [] [] = Some []"
| "sprintf [] (a # as) = None"
| "sprintf [c] as = (if c = CHR ''%'' then None else map_option ((#) c) (sprintf [] as))"
| "sprintf (c # v # fs) as =
     (if c \<noteq> CHR ''%'' then map_option ((#) c) (sprintf (v # fs) as)
      else if v = CHR ''%'' then map_option ((#) CHR ''%'') (sprintf fs as)
      else if v = CHR ''s'' \<or> v = CHR ''v'' then
        (case as of
           [] \<Rightarrow> None
         | a # as' \<Rightarrow> map_option ((@) a) (sprintf fs as'))
      else None)"

text \<open>
  \<open>Sprintf\<close> is the rendered text. Every format string of the program lies in the
  fragment with the operands it is given (the lemmas \<open>mainGoContent_lines\<close> and
  \<open>makefileContent_lines\<close> render the two templates); outside the fragment the model
  has no text to give and yields the empty string.
\<close>

definition Sprintf :: "string \<Rightarrow> string list \<Rightarrow> string" where
  "Sprintf f as = (case sprintf f as of Some s \<Rightarrow> s | None \<Rightarrow> [])"

section \<open>The content generators\<close>

text \<open>\<^verbatim>\<open>gitignoreContent\<close>, lines 93 to 111.\<close>

definition gitignoreContent :: string where
  \<open>gitignoreContent = unlines
    [''# Binaries for programs and plugins'',
     ''*.exe'',
     ''*.dll'',
     ''*.so'',
     ''*.dylib'',
     '''',
     ''# Output of the go coverage tool, specifically when used with LiteIDE'',
     ''*.out'',
     '''',
     ''# Dependency directories (vendor)'',
     ''vendor/'',
     '''',
     ''# IDE/editor configurations'',
     ''.idea/'',
     ''.vscode/'',
     ''*.swp'']\<close>

text \<open>
  \<^verbatim>\<open>mainGoContent\<close>, lines 114 to 139: a format string with the project name as both
  operands.
\<close>

definition mainGoTemplate :: string where
  \<open>mainGoTemplate = unlines
    [''package main'',
     '''',
     ''import ('',
     TAB # ''"fmt"'',
     TAB # ''"log"'',
     '''',
     TAB # ''"%s/pkg/config"'',
     TAB # ''"%s/pkg/logger"'',
     '')'',
     '''',
     ''func main() {'',
     TAB # ''// Load configuration'',
     TAB # ''cfg := config.LoadConfig()'',
     '''',
     TAB # ''// Initialize logger'',
     TAB # ''log, err := logger.NewLogger(cfg.LogFile)'',
     TAB # ''if err != nil {'',
     TAB # TAB # ''log.Fatalf("Failed to initialize logger: %%v", err)'',
     TAB # ''}'',
     '''',
     TAB # ''log.Info().Msg("Starting the application")'',
     TAB # ''fmt.Println("Server Port:", cfg.ServerPort)'',
     ''}'']\<close>

definition mainGoContent :: "string \<Rightarrow> string" where
  "mainGoContent projectName = Sprintf mainGoTemplate [projectName, projectName]"

text \<open>\<^verbatim>\<open>envFileContent\<close>, lines 142 to 152.\<close>

definition envFileContent :: string where
  \<open>envFileContent = unlines
    [''APP_NAME=myapi'',
     ''SERVER_PORT=8080'',
     ''LOG_FILE=logs/myapi.log'',
     ''DB_USER=root'',
     ''DB_PASSWORD=password'',
     ''DB_HOST=localhost'',
     ''DB_PORT=5432'',
     ''DB_NAME=mydatabase'']\<close>

text \<open>\<^verbatim>\<open>makefileContent\<close>, lines 155 to 165: a format string with one operand.\<close>

definition makefileTemplate :: string where
  \<open>makefileTemplate = unlines
    [''run:'',
     TAB # ''go run cmd/%s/main.go'',
     '''',
     ''test:'',
     TAB # ''go test ./...'',
     '''',
     ''migrate:'',
     TAB # ''migrate -path ./migrations -database $(DB_URL) up'']\<close>

definition makefileContent :: "string \<Rightarrow> string" where
  "makefileContent projectName = Sprintf makefileTemplate [projectName]"

text \<open>\<^verbatim>\<open>loggerGoContent\<close>, lines 168 to 193.\<close>

definition loggerGoContent :: string where
  \<open>loggerGoContent = unlines
    [''package logger'',
     '''',
     ''import ('',
     TAB # ''"os"'',
     '''',
     TAB # ''"github.com/rs/zerolog"'',
     TAB # ''"github.com/rs/zerolog/log"'',
     '')'',
     '''',
     ''// NewLogger creates a new logger that logs to the specified file'',
     ''func NewLogger(logFile string) (*zerolog.Logger, error) {'',
     TAB # ''file, err := os.Create(logFile)'',
     TAB # ''if err != nil {'',
     TAB # TAB # ''return nil, err'',
     TAB # ''}'',
     '''',
     TAB # ''zerolog.TimeFieldFormat = zerolog.TimeFormatUnix'',
     TAB # ''multi := zerolog.MultiLevelWriter(os.Stdout, file)'',
     '''',
     TAB # ''logger := zerolog.New(multi).With().Timestamp().Logger()'',
     TAB # ''log.Logger = logger'',
     TAB # ''return &logger, nil'',
     ''}'']\<close>

text \<open>
  \<^verbatim>\<open>configGoContent\<close>, lines 196 to 233. The source splices a back quote around each
  struct tag; the text is not passed through \<^verbatim>\<open>Sprintf\<close>, so its \<^verbatim>\<open>%%v\<close> stay as
  they are.
\<close>

definition configGoContent :: string where
  \<open>configGoContent = unlines
    [''package config'',
     '''',
     ''import ('',
     TAB # ''"log"'',
     TAB # ''"os"'',
     '''',
     TAB # ''"github.com/spf13/viper"'',
     '')'',
     '''',
     ''// Config holds the configuration for the application'',
     ''type Config struct {'',
     TAB # ''AppName    string `mapstructure:"APP_NAME"`'',
     TAB # ''ServerPort string `mapstructure:"SERVER_PORT"`'',
     TAB # ''LogFile    string `mapstructure:"LOG_FILE"`'',
     TAB # ''DBUser     string `mapstructure:"DB_USER"`'',
     TAB # ''DBPassword string `mapstructure:"DB_PASSWORD"`'',
     TAB # ''DBHost     string `mapstructure:"DB_HOST"`'',
     TAB # ''DBPort     string `mapstructure:"DB_PORT"`'',
     TAB # ''DBName     string `mapstructure:"DB_NAME"`'',
     ''}'',
     '''',
     ''// LoadConfig reads the .env file and returns the application configuration'',
     ''func LoadConfig() *Config {'',
     TAB # ''viper.SetConfigFile(".env")'',
     TAB # ''if err := viper.ReadInConfig(); err != nil {'',
     TAB # TAB # ''log.Fatalf("Error loading .env file: %%v", err)'',
     TAB # ''}'',
     '''',
     TAB # ''var cfg Config'',
     TAB # ''if err := viper.Unmarshal(&cfg); err != nil {'',
     TAB # TAB # ''log.Fatalf("Error unmarshalling config: %%v", err)'',
     TAB # ''}'',
     '''',
     TAB # ''return &cfg'',
     ''}'']\<close>

section \<open>Paths\<close>

text \<open>
  \<open>join_slash\<close> is \<^verbatim>\<open>strings.Join(elem, "/")\<close>. \<open>Clean\<close> is \<^verbatim>\<open>filepath.Clean\<close> on a
  system whose separator is the slash: empty and \<^verbatim>\<open>.\<close> elements go, a \<^verbatim>\<open>..\<close> element
  removes the element before it (at the start of a rooted path it is dropped, at the
  start of a relative path it is kept), and the empty result is written \<^verbatim>\<open>.\<close>.
  \<open>Join\<close> is \<^verbatim>\<open>filepath.Join\<close>: the elements from the first non-empty one on, joined
  and cleaned; the empty string when every element is empty.
\<close>

fun join_slash :: "string list \<Rightarrow> string" where
  "join_slash [] = []"
| "join_slash [e] = e"
| "join_slash (e # es) = e @ CHR ''/'' # join_slash es"

definition is_rooted :: "string \<Rightarrow> bool" where
  "is_rooted p = (case p of [] \<Rightarrow> False | c # _ \<Rightarrow> c = CHR ''/'')"

definition clean_push :: "bool \<Rightarrow> string list \<Rightarrow> string \<Rightarrow> string list" where
  "clean_push rooted out c =
     (if c = [] \<or> c = ''.'' then out
      else if c = ''..'' then
        (if out \<noteq> [] \<and> last out \<noteq> ''..'' then butlast out
         else if rooted then out
         else out @ [''..''])
      else out @ [c])"

definition Clean :: "string \<Rightarrow> string" where
  "Clean p =
     (let out = foldl (clean_push (is_rooted p)) [] (split_on CHR ''/'' p);
          s = (if is_rooted p then ''/'' else []) @ join_slash out
      in if s = [] then ''.'' else s)"

definition Join :: "string list \<Rightarrow> string" where
  "Join elem =
     (case dropWhile (\<lambda>e. e = []) elem of
        [] \<Rightarrow> []
      | es \<Rightarrow> Clean (join_slash es))"

section \<open>The file system\<close>

text \<open>
  The program acts on the file system through \<^verbatim>\<open>os.Mkdir\<close>, \<^verbatim>\<open>os.MkdirAll\<close>,
  \<^verbatim>\<open>os.Create\<close>, \<^verbatim>\<open>File.WriteString\<close> and the external command \<^verbatim>\<open>git init\<close>. The
  state is a tree of directories and regular files, a map from the list of names that
  leads to an entry to the entry. The working directory is the root of the tree: it is
  always a directory, \<^verbatim>\<open>..\<close> at the root stays at the root and a leading slash changes
  nothing, as for a process started in \<^verbatim>\<open>/\<close>. Links, permissions, quotas and write
  errors are not modelled; a name longer than \<open>NAME_MAX\<close> bytes and a path with a NUL
  byte are refused as Linux refuses them.
\<close>

datatype node = Dir | File string

type_synonym path = "string list"

type_synonym fs = "path \<rightharpoonup> node"

datatype errno = ENOENT | EEXIST | ENOTDIR | EISDIR | ENAMETOOLONG | EINVAL

definition NAME_MAX :: nat where
  "NAME_MAX = 255"

definition node_at :: "fs \<Rightarrow> path \<Rightarrow> node option" where
  "node_at fs p = (if p = [] then Some Dir else fs p)"

text \<open>
  Path resolution: from the directory \<open>cur\<close>, follow the names \<open>cs\<close>. Before each step
  the place reached must exist and be a directory. The place the last name leads to is
  returned whether it exists or not; the caller looks it up.
\<close>

fun walk :: "fs \<Rightarrow> path \<Rightarrow> string list \<Rightarrow> errno + path" where
  "walk fs cur [] = Inr cur"
| "walk fs cur (c # cs) =
     (case node_at fs cur of
        None \<Rightarrow> Inl ENOENT
      | Some (File _) \<Rightarrow> Inl ENOTDIR
      | Some Dir \<Rightarrow>
          if c = [] \<or> c = ''.'' then walk fs cur cs
          else if c = ''..'' then walk fs (butlast cur) cs
          else if NAME_MAX < length c then Inl ENAMETOOLONG
          else walk fs (cur @ [c]) cs)"

text \<open>
  The names of a path given to a system call. The empty path is \<open>ENOENT\<close>, a path with
  a NUL byte is \<open>EINVAL\<close>.
\<close>

definition names_of :: "string \<Rightarrow> errno + string list" where
  "names_of p =
     (if p = [] then Inl ENOENT
      else if CHR 0x00 \<in> set p then Inl EINVAL
      else Inr (split_on CHR ''/'' p))"

text \<open>\<^verbatim>\<open>os.Stat\<close>: the entry a path leads to.\<close>

definition os_Stat :: "fs \<Rightarrow> string \<Rightarrow> errno + node" where
  "os_Stat fs p =
     (case names_of p of
        Inl e \<Rightarrow> Inl e
      | Inr cs \<Rightarrow>
          (case walk fs [] cs of
             Inl e \<Rightarrow> Inl e
           | Inr q \<Rightarrow> (case node_at fs q of None \<Rightarrow> Inl ENOENT | Some n \<Rightarrow> Inr n)))"

text \<open>
  The parent directory and the last name of a path, for the calls that create an entry.
  Slashes after the last name do not count. The parent must exist and be a directory.
  The last name is returned as it is written: it can be \<^verbatim>\<open>.\<close> or \<^verbatim>\<open>..\<close>, and it is
  empty when the path is made of slashes only.
\<close>

definition strip_slashes :: "string list \<Rightarrow> string list" where
  "strip_slashes cs = rev (dropWhile (\<lambda>c. c = []) (rev cs))"

definition parent_and_name :: "fs \<Rightarrow> string \<Rightarrow> errno + (path \<times> string)" where
  "parent_and_name fs p =
     (case names_of p of
        Inl e \<Rightarrow> Inl e
      | Inr cs \<Rightarrow>
          (case strip_slashes cs of
             [] \<Rightarrow> Inr ([], [])
           | ds \<Rightarrow>
               (case walk fs [] (butlast ds) of
                  Inl e \<Rightarrow> Inl e
                | Inr q \<Rightarrow>
                    (case node_at fs q of
                       None \<Rightarrow> Inl ENOENT
                     | Some (File _) \<Rightarrow> Inl ENOTDIR
                     | Some Dir \<Rightarrow> Inr (q, last ds)))))"

text \<open>
  \<^verbatim>\<open>os.Mkdir\<close>: creates one directory. It fails with \<open>EEXIST\<close> when the path leads to
  anything that exists, also when its last name is \<^verbatim>\<open>.\<close> or \<^verbatim>\<open>..\<close> or the root.
\<close>

definition os_Mkdir :: "fs \<Rightarrow> string \<Rightarrow> errno + fs" where
  "os_Mkdir fs p =
     (case parent_and_name fs p of
        Inl e \<Rightarrow> Inl e
      | Inr (q, c) \<Rightarrow>
          if c = [] \<or> c = ''.'' \<or> c = ''..'' then Inl EEXIST
          else if NAME_MAX < length c then Inl ENAMETOOLONG
          else (case node_at fs (q @ [c]) of
                  Some _ \<Rightarrow> Inl EEXIST
                | None \<Rightarrow> Inr (fs(q @ [c] \<mapsto> Dir))))"

text \<open>
  \<^verbatim>\<open>os.MkdirAll\<close>: creates a directory and every missing parent; a directory that is
  already there is left alone, a regular file on the way is \<open>ENOTDIR\<close>.
\<close>

fun mkdir_all :: "fs \<Rightarrow> path \<Rightarrow> string list \<Rightarrow> errno + fs" where
  "mkdir_all fs cur [] = Inr fs"
| "mkdir_all fs cur (c # cs) =
     (if c = [] \<or> c = ''.'' then mkdir_all fs cur cs
      else if c = ''..'' then mkdir_all fs (butlast cur) cs
      else if NAME_MAX < length c then Inl ENAMETOOLONG
      else (case node_at fs (cur @ [c]) of
              None \<Rightarrow> mkdir_all (fs(cur @ [c] \<mapsto> Dir)) (cur @ [c]) cs
            | Some Dir \<Rightarrow> mkdir_all fs (cur @ [c]) cs
            | Some (File _) \<Rightarrow> Inl ENOTDIR))"

definition os_MkdirAll :: "fs \<Rightarrow> string \<Rightarrow> errno + fs" where
  "os_MkdirAll fs p =
     (case names_of p of
        Inl e \<Rightarrow> Inl e
      | Inr cs \<Rightarrow> mkdir_all fs [] cs)"

text \<open>
  \<^verbatim>\<open>os.Create\<close> opens a file for writing, creating it when it is missing and emptying
  it when it exists; a directory cannot be opened so (\<open>EISDIR\<close>). The open file is
  returned as the place of its entry. \<^verbatim>\<open>File.WriteString\<close> on the file just opened
  makes the text its content.
\<close>

definition os_Create :: "fs \<Rightarrow> string \<Rightarrow> errno + (path \<times> fs)" where
  "os_Create fs p =
     (case names_of p of
        Inl e \<Rightarrow> Inl e
      | Inr cs \<Rightarrow>
          if last cs = [] then Inl EISDIR
          else (case parent_and_name fs p of
                  Inl e \<Rightarrow> Inl e
                | Inr (q, c) \<Rightarrow>
                    if c = ''.'' \<or> c = ''..'' then Inl EISDIR
                    else if NAME_MAX < length c then Inl ENAMETOOLONG
                    else (case node_at fs (q @ [c]) of
                            Some Dir \<Rightarrow> Inl EISDIR
                          | _ \<Rightarrow> Inr (q @ [c], fs(q @ [c] \<mapsto> File [])))))"

definition WriteString :: "fs \<Rightarrow> path \<Rightarrow> string \<Rightarrow> errno + fs" where
  "WriteString fs file content = Inr (fs(file \<mapsto> File content))"

text \<open>
  An error of the \<^verbatim>\<open>os\<close> package names the operation and the path, and prints as
  Go's \<^verbatim>\<open>PathError\<close> does; an error of \<^verbatim>\<open>exec\<close> carries its text.
\<close>

datatype os_error = PathError string string errno | ExecError string

fun errno_text :: "errno \<Rightarrow> string" where
  "errno_text ENOENT = ''no such file or directory''"
| "errno_text EEXIST = ''file exists''"
| "errno_text ENOTDIR = ''not a directory''"
| "errno_text EISDIR = ''is a directory''"
| "errno_text ENAMETOOLONG = ''file name too long''"
| "errno_text EINVAL = ''invalid argument''"

fun error_text :: "os_error \<Rightarrow> string" where
  "error_text (PathError operation p e) = operation @ '' '' @ p @ '': '' @ errno_text e"
| "error_text (ExecError msg) = msg"

section \<open>The program\<close>

text \<open>
  A step of the program either goes on with the new file system or stops the process:
  \<^verbatim>\<open>log.Fatal\<close> and \<^verbatim>\<open>log.Fatalf\<close> write the message to the standard error stream and
  exit with status 1. \<open>Failed\<close> keeps the message and the file system as it is at that
  moment. The time stamp that \<^verbatim>\<open>log\<close> puts before the message is left out.
\<close>

datatype step = Failed string fs | Done fs

text \<open>\<^verbatim>\<open>createFile\<close>, lines 69 to 80.\<close>

definition createFile :: "fs \<Rightarrow> string \<Rightarrow> string \<Rightarrow> step" where
  "createFile fs filePath content =
     (case os_Create fs filePath of
        Inl e \<Rightarrow>
          Failed (Sprintf ''Failed to create file %s: %v''
                    [filePath, error_text (PathError ''open'' filePath e)]) fs
      | Inr (file, fs1) \<Rightarrow>
          (case WriteString fs1 file content of
             Inl e \<Rightarrow>
               Failed (Sprintf ''Failed to write to file %s: %v''
                         [filePath, error_text (PathError ''write'' filePath e)]) fs1
           | Inr fs2 \<Rightarrow> Done fs2))"

text \<open>
  \<^verbatim>\<open>initGit\<close>, lines 83 to 90. The command runs in the project directory (in the
  working directory when \<^verbatim>\<open>cmd.Dir\<close> is empty), which must exist. What the command does
  is not the program's, so it is an input of the model: either \<^verbatim>\<open>cmd.Run\<close> returns an
  error with some text, or the command succeeds and leaves the repository's directory
  \<^verbatim>\<open>.git\<close> in the project directory together with the entries it writes below it
  (\<^verbatim>\<open>HEAD\<close>, \<^verbatim>\<open>config\<close>, \<^verbatim>\<open>objects\<close>, \<^verbatim>\<open>refs\<close> and so on). \<open>GitSucceeds tree\<close> gives
  these entries, each by its path below \<^verbatim>\<open>.git\<close>; \<open>git_tree q tree\<close> puts them below the
  directory \<open>q\<close>.
\<close>

datatype git = GitFails string | GitSucceeds "(path \<times> node) list"

definition git_tree :: "path \<Rightarrow> (path \<times> node) list \<Rightarrow> (path \<times> node) list" where
  "git_tree q tree = map (\<lambda>(r, n). (q @ ''.git'' # r, n)) tree"

definition run_git_init :: "git \<Rightarrow> fs \<Rightarrow> string \<Rightarrow> os_error + fs" where
  "run_git_init g fs dir =
     (case (if dir = [] then Inr [] else names_of dir) of
        Inl e \<Rightarrow> Inl (PathError ''chdir'' dir e)
      | Inr cs \<Rightarrow>
          (case walk fs [] cs of
             Inl e \<Rightarrow> Inl (PathError ''chdir'' dir e)
           | Inr q \<Rightarrow>
               (case node_at fs q of
                  None \<Rightarrow> Inl (PathError ''chdir'' dir ENOENT)
                | Some (File _) \<Rightarrow> Inl (PathError ''chdir'' dir ENOTDIR)
                | Some Dir \<Rightarrow>
                    (case g of
                       GitFails msg \<Rightarrow> Inl (ExecError msg)
                     | GitSucceeds tree \<Rightarrow>
                         Inr ((fs ++ map_of (git_tree q tree))(q @ [''.git''] \<mapsto> Dir))))))"

definition initGit :: "git \<Rightarrow> fs \<Rightarrow> string \<Rightarrow> step" where
  "initGit g fs projectDir =
     (case run_git_init g fs projectDir of
        Inl e \<Rightarrow> Failed (Sprintf ''Failed to initialize Git: %v'' [error_text e]) fs
      | Inr fs1 \<Rightarrow> Done fs1)"

text \<open>The slice \<^verbatim>\<open>dirs\<close>, lines 24 to 39.\<close>

definition dirs :: "string \<Rightarrow> string list" where
  "dirs projectName =
     [Join [''cmd'', projectName],
      ''internal/handlers'',
      ''internal/services'',
      ''internal/repository'',
      ''internal/models/api'',
      ''internal/models/db'',
      ''internal/middlewares'',
      ''internal/utils'',
      ''pkg/logger'',
      ''pkg/config'',
      ''tests/unit'',
      ''tests/integration'',
      ''migrations'',
      ''docs'']"

text \<open>The loop over \<^verbatim>\<open>dirs\<close>, lines 42 to 48: it stops at the first error.\<close>

fun create_dirs :: "fs \<Rightarrow> string \<Rightarrow> string list \<Rightarrow> step" where
  "create_dirs fs projectName [] = Done fs"
| "create_dirs fs projectName (dir # rest) =
     (let dirPath = Join [projectName, dir] in
      case os_MkdirAll fs dirPath of
        Inl e \<Rightarrow>
          Failed (Sprintf ''Failed to create directory %s: %v''
                    [dirPath, error_text (PathError ''mkdir'' dirPath e)]) fs
      | Inr fs1 \<Rightarrow> create_dirs fs1 projectName rest)"

text \<open>
  The six calls of \<^verbatim>\<open>createFile\<close>, lines 51 to 60, in their order: the path below the
  project directory and the content of each.
\<close>

definition files :: "string \<Rightarrow> (string \<times> string) list" where
  "files projectName =
     [(Join [''cmd'', projectName, ''main.go''], mainGoContent projectName),
      (''.env'', envFileContent),
      (''.gitignore'', gitignoreContent),
      (''Makefile'', makefileContent projectName),
      (Join [''pkg'', ''logger'', ''logger.go''], loggerGoContent),
      (Join [''pkg'', ''config'', ''config.go''], configGoContent)]"

text \<open>
  Each call joins the project name and the path and writes the content; the first call
  that fails stops the run.
\<close>

fun create_files :: "fs \<Rightarrow> string \<Rightarrow> (string \<times> string) list \<Rightarrow> step" where
  "create_files fs projectName [] = Done fs"
| "create_files fs projectName ((name, content) # rest) =
     (case createFile fs (Join [projectName, name]) content of
        Failed msg fs1 \<Rightarrow> Failed msg fs1
      | Done fs1 \<Rightarrow> create_files fs1 projectName rest)"

text \<open>
  What a run leaves: the exit status, the two output streams and the file system.
\<close>

record outcome =
  status :: nat
  stdout :: string
  stderr :: string
  disk :: fs

definition fatal :: "string \<Rightarrow> fs \<Rightarrow> outcome" where
  "fatal msg fs = \<lparr>status = 1, stdout = [], stderr = msg @ [NL], disk = fs\<rparr>"

text \<open>
  \<^verbatim>\<open>main\<close>, lines 11 to 66. \<open>args\<close> is \<^verbatim>\<open>os.Args\<close>: the program's name, then the
  arguments.
\<close>

definition main :: "git \<Rightarrow> string list \<Rightarrow> fs \<Rightarrow> outcome" where
  "main g args fs =
     (if length args < 2 then fatal ''Please provide a project name as an argument.'' fs
      else
        let projectName = args ! 1 in
        case os_Mkdir fs projectName of
          Inl e \<Rightarrow>
            fatal (Sprintf ''Failed to create project directory: %v''
                     [error_text (PathError ''mkdir'' projectName e)]) fs
        | Inr fs1 \<Rightarrow>
            (case create_dirs fs1 projectName (dirs projectName) of
               Failed msg fs2 \<Rightarrow> fatal msg fs2
             | Done fs2 \<Rightarrow>
                 (case create_files fs2 projectName (files projectName) of
                    Failed msg fs3 \<Rightarrow> fatal msg fs3
                  | Done fs3 \<Rightarrow>
                      (case initGit g fs3 projectName of
                         Failed msg fs4 \<Rightarrow> fatal msg fs4
                       | Done fs4 \<Rightarrow>
                           \<lparr>status = 0,
                            stdout = Sprintf ''Project %s has been created successfully!\<newline>''
                                       [projectName],
                            stderr = [],
                            disk = fs4\<rparr>))))"

section \<open>The notions the properties are stated with\<close>

text \<open>
  A name that can be given to a directory: one name of a path, neither empty nor
  \<^verbatim>\<open>.\<close> nor \<^verbatim>\<open>..\<close>, without a slash or a NUL byte, at most \<open>NAME_MAX\<close> bytes long.
\<close>

definition valid_name :: "string \<Rightarrow> bool" where
  "valid_name c =
     (c \<noteq> [] \<and> c \<noteq> ''.'' \<and> c \<noteq> ''..'' \<and> CHR ''/'' \<notin> set c \<and>
      CHR 0x00 \<notin> set c \<and> length c \<le> NAME_MAX)"

text \<open>
  A file system is a tree when every entry has a name and lies in a directory.
\<close>

definition tree_closed :: "fs \<Rightarrow> bool" where
  "tree_closed fs = (\<forall>p. fs p \<noteq> None \<longrightarrow> p \<noteq> [] \<and> node_at fs (butlast p) = Some Dir)"

text \<open>
  The manifest as the specification lists it, below the project directory: the fourteen
  directories, the six files with their contents, and the directories that lie between
  the project directory and a directory of the manifest.
\<close>

definition manifest_dirs :: "string \<Rightarrow> path list" where
  "manifest_dirs N =
     [[''cmd'', N],
      [''internal'', ''handlers''],
      [''internal'', ''services''],
      [''internal'', ''repository''],
      [''internal'', ''models'', ''api''],
      [''internal'', ''models'', ''db''],
      [''internal'', ''middlewares''],
      [''internal'', ''utils''],
      [''pkg'', ''logger''],
      [''pkg'', ''config''],
      [''tests'', ''unit''],
      [''tests'', ''integration''],
      [''migrations''],
      [''docs'']]"

definition parent_dirs :: "path list" where
  "parent_dirs = [[''cmd''], [''internal''], [''internal'', ''models''], [''pkg''], [''tests'']]"

definition manifest_files :: "string \<Rightarrow> (path \<times> string) list" where
  "manifest_files N =
     [([''cmd'', N, ''main.go''], mainGoContent N),
      ([''.env''], envFileContent),
      ([''.gitignore''], gitignoreContent),
      ([''Makefile''], makefileContent N),
      ([''pkg'', ''logger'', ''logger.go''], loggerGoContent),
      ([''pkg'', ''config'', ''config.go''], configGoContent)]"

text \<open>
  The tree of a project without what git keeps inside \<^verbatim>\<open>.git\<close>: the project
  directory, the directories, the repository's directory and the files.
\<close>

definition scaffold :: "string \<Rightarrow> (path \<times> node) list" where
  "scaffold N =
     map (\<lambda>d. (N # d, Dir)) ([] # manifest_dirs N @ parent_dirs @ [[''.git'']]) @
     map (\<lambda>(f, c). (N # f, File c)) (manifest_files N)"

text \<open>
  A path below the project directory lies inside the repository's directory when it
  starts with \<^verbatim>\<open>.git\<close> and goes on. What is there is git's, not the program's.
\<close>

definition below_git :: "path \<Rightarrow> bool" where
  "below_git q = (case q of [] \<Rightarrow> False | c # r \<Rightarrow> c = ''.git'' \<and> r \<noteq> [])"

text \<open>
  Some of the entries of a fresh repository, for the examples.
\<close>

definition fresh_repository :: "(path \<times> node) list" where
  "fresh_repository =
     [([''HEAD''], File ''ref: refs/heads/master\<newline>''),
      ([''hooks''], Dir),
      ([''info''], Dir),
      ([''objects''], Dir),
      ([''refs''], Dir),
      ([''refs'', ''heads''], Dir),
      ([''refs'', ''tags''], Dir)]"

text \<open>
  The lines of a text file: the pieces between the line feeds, without the empty piece
  after the last line feed. An environment file is read as its lines that have an equals
  sign, each split at the first one.
\<close>

definition lines_of :: "string \<Rightarrow> string list" where
  "lines_of s = (let ls = split_on NL s in if last ls = [] then butlast ls else ls)"

definition key_value :: "string \<Rightarrow> string \<times> string" where
  "key_value l =
     (takeWhile (\<lambda>c. c \<noteq> CHR ''='') l, drop 1 (dropWhile (\<lambda>c. c \<noteq> CHR ''='') l))"

definition parse_env :: "string \<Rightarrow> (string \<times> string) list" where
  "parse_env s = map key_value (filter (\<lambda>l. CHR ''='' \<in> set l) (lines_of s))"

text \<open>
  The entries of a run in the order in which the program makes them, and the file system
  after writing a list of entries one after the other.
\<close>

definition made_dirs :: "string \<Rightarrow> path list" where
  "made_dirs N =
     [[N, ''cmd''], [N, ''cmd'', N],
      [N, ''internal''], [N, ''internal'', ''handlers''],
      [N, ''internal'', ''services''],
      [N, ''internal'', ''repository''],
      [N, ''internal'', ''models''], [N, ''internal'', ''models'', ''api''],
      [N, ''internal'', ''models'', ''db''],
      [N, ''internal'', ''middlewares''],
      [N, ''internal'', ''utils''],
      [N, ''pkg''], [N, ''pkg'', ''logger''],
      [N, ''pkg'', ''config''],
      [N, ''tests''], [N, ''tests'', ''unit''],
      [N, ''tests'', ''integration''],
      [N, ''migrations''],
      [N, ''docs'']]"

definition made_files :: "string \<Rightarrow> (path \<times> string) list" where
  "made_files N =
     [([N, ''cmd'', N, ''main.go''], mainGoContent N),
      ([N, ''.env''], envFileContent),
      ([N, ''.gitignore''], gitignoreContent),
      ([N, ''Makefile''], makefileContent N),
      ([N, ''pkg'', ''logger'', ''logger.go''], loggerGoContent),
      ([N, ''pkg'', ''config'', ''config.go''], configGoContent)]"

definition made :: "string \<Rightarrow> (path \<times> node) list" where
  "made N =
     ([N], Dir) # map (\<lambda>d. (d, Dir)) (made_dirs N) @
     map (\<lambda>(f, c). (f, File c)) (made_files N) @ [([N, ''.git''], Dir)]"

definition write_all :: "fs \<Rightarrow> (path \<times> node) list \<Rightarrow> fs" where
  "write_all fs xs = foldl (\<lambda>f (p, n). f(p \<mapsto> n)) fs xs"

text \<open>
  The text the program writes to a file of the project, by the file's path below the
  project directory.
\<close>

definition generated :: "string \<Rightarrow> string \<Rightarrow> string option" where
  "generated projectName name = map_of (files projectName) name"

text \<open>
  A makefile, read line by line. A line assigns a variable when, after its leading blanks,
  it has a name followed by an assignment operator; \<open>assigned v content\<close> says that some
  line of the text assigns \<open>v\<close> (the lines \<open>KEY=value\<close> of an environment file are of that
  form too). A recipe line starts with a tab. A rule line is a line with a colon that is
  neither; its target is the text before the colon and its recipe the recipe lines that
  follow it, without their tab.
\<close>

definition blank :: "char \<Rightarrow> bool" where
  "blank c = (c = CHR '' '' \<or> c = TAB)"

definition assignment_of :: "string \<Rightarrow> string option" where
  "assignment_of l =
     (let l' = dropWhile blank l;
          name = takeWhile (\<lambda>c. \<not> blank c \<and> c \<notin> set ''=:?+!'') l';
          r = dropWhile blank (drop (length name) l')
      in if name \<noteq> [] \<and>
            (prefix ''='' r \<or> prefix '':='' r \<or> prefix ''::='' r \<or>
             prefix ''?='' r \<or> prefix ''+='' r \<or> prefix ''!='' r)
         then Some name else None)"

definition assigned :: "string \<Rightarrow> string \<Rightarrow> bool" where
  "assigned v content = (Some v \<in> set (map assignment_of (lines_of content)))"

definition is_recipe_line :: "string \<Rightarrow> bool" where
  "is_recipe_line l = (case l of [] \<Rightarrow> False | c # _ \<Rightarrow> c = TAB)"

definition is_rule_line :: "string \<Rightarrow> bool" where
  "is_rule_line l =
     (if is_recipe_line l then False
      else CHR '':'' \<in> set l \<and> assignment_of l = None)"

fun rules :: "string list \<Rightarrow> (string \<times> string list) list" where
  "rules [] = []"
| "rules (l # ls) =
     (if is_rule_line l
      then (takeWhile (\<lambda>c. c \<noteq> CHR '':'') l, map (drop 1) (takeWhile is_recipe_line ls)) #
           rules ls
      else rules ls)"

definition makefile_rules :: "string \<Rightarrow> (string \<times> string list) list" where
  "makefile_rules content = rules (lines_of content)"

section \<open>Lemmas\<close>

subsection \<open>The rendered templates\<close>

text \<open>
  The two format strings rendered for an arbitrary name, line by line, and what follows
  from the rendering: each of the two texts determines the name.
\<close>

lemma mainGoContent_lines:
  \<open>mainGoContent N = unlines
    [''package main'',
     '''',
     ''import ('',
     TAB # ''"fmt"'',
     TAB # ''"log"'',
     '''',
     TAB # ''"'' @ N @ ''/pkg/config"'',
     TAB # ''"'' @ N @ ''/pkg/logger"'',
     '')'',
     '''',
     ''func main() {'',
     TAB # ''// Load configuration'',
     TAB # ''cfg := config.LoadConfig()'',
     '''',
     TAB # ''// Initialize logger'',
     TAB # ''log, err := logger.NewLogger(cfg.LogFile)'',
     TAB # ''if err != nil {'',
     TAB # TAB # ''log.Fatalf("Failed to initialize logger: %v", err)'',
     TAB # ''}'',
     '''',
     TAB # ''log.Info().Msg("Starting the application")'',
     TAB # ''fmt.Println("Server Port:", cfg.ServerPort)'',
     ''}'']\<close>
  by (simp add: mainGoContent_def Sprintf_def mainGoTemplate_def unlines_def TAB_def NL_def)

lemma makefileContent_lines:
  \<open>makefileContent N = unlines
    [''run:'',
     TAB # ''go run cmd/'' @ N @ ''/main.go'',
     '''',
     ''test:'',
     TAB # ''go test ./...'',
     '''',
     ''migrate:'',
     TAB # ''migrate -path ./migrations -database $(DB_URL) up'']\<close>
  by (simp add: makefileContent_def Sprintf_def makefileTemplate_def unlines_def TAB_def NL_def)

lemma sublist_unlines:
  assumes "l \<in> set ls" and "sublist x l"
  shows "sublist x (unlines ls)"
proof -
  from assms(1) obtain as bs where "ls = as @ l # bs"
    by (auto dest: split_list)
  moreover from assms(2) obtain p s where "l = p @ x @ s"
    unfolding sublist_def by blast
  ultimately have "unlines ls = (unlines as @ p) @ x @ (s @ NL # unlines bs)"
    by (simp add: unlines_def)
  then show ?thesis
    unfolding sublist_def by blast
qed

lemma sublist_mid: "sublist x (a @ x @ b)"
  unfolding sublist_def by blast

lemma parse_env_envFileContent:
  "parse_env envFileContent =
     [(''APP_NAME'', ''myapi''),
      (''SERVER_PORT'', ''8080''),
      (''LOG_FILE'', ''logs/myapi.log''),
      (''DB_USER'', ''root''),
      (''DB_PASSWORD'', ''password''),
      (''DB_HOST'', ''localhost''),
      (''DB_PORT'', ''5432''),
      (''DB_NAME'', ''mydatabase'')]"
  by (simp add: parse_env_def lines_of_def key_value_def envFileContent_def unlines_def NL_def)

lemma mainGoContent_inj: "mainGoContent N = mainGoContent M \<Longrightarrow> N = M"
proof -
  assume eq: "mainGoContent N = mainGoContent M"
  then have "length (mainGoContent N) = length (mainGoContent M)" by simp
  then have len: "length N = length M"
    by (simp add: mainGoContent_lines unlines_def)
  from eq len show "N = M"
    by (simp add: mainGoContent_lines unlines_def)
qed

lemma makefileContent_inj: "makefileContent N = makefileContent M \<Longrightarrow> N = M"
proof -
  assume eq: "makefileContent N = makefileContent M"
  then have "length (makefileContent N) = length (makefileContent M)" by simp
  then have len: "length N = length M"
    by (simp add: makefileContent_lines unlines_def)
  from eq len show "N = M"
    by (simp add: makefileContent_lines unlines_def)
qed

subsection \<open>Paths made of valid names\<close>

text \<open>
  Splitting at a separator that a piece does not contain, and the facts about a valid
  name that let the simplifier evaluate \<open>Join\<close>, \<open>Clean\<close> and the path resolution on
  paths that start with the name.
\<close>

lemma split_on_not_Nil: "split_on d s \<noteq> []"
  by (induction s) (auto split: list.splits)

lemma split_on_no_sep: "d \<notin> set s \<Longrightarrow> split_on d s = [s]"
  by (induction s) auto

lemma split_on_sep: "d \<notin> set s \<Longrightarrow> split_on d (s @ d # t) = s # split_on d t"
  by (induction s) auto

lemma is_rooted_simps: "is_rooted [] = False" "is_rooted (c # cs) = (c = CHR ''/'')"
  by (simp_all add: is_rooted_def)

lemma is_rooted_valid: "valid_name N \<Longrightarrow> is_rooted (N @ t) = False"
  by (cases N) (auto simp: is_rooted_def valid_name_def)

lemma valid_nameD:
  assumes "valid_name N"
  shows "N \<noteq> []" "N \<noteq> ''.''" "N \<noteq> ''..''" "CHR ''/'' \<notin> set N" "CHR 0x00 \<notin> set N"
    "\<not> NAME_MAX < length N" "\<not> 255 < length N"
  using assms by (auto simp: valid_name_def NAME_MAX_def)

lemma split_on_slash_valid:
  assumes "valid_name N"
  shows "split_on CHR ''/'' N = [N]" "split_on CHR ''/'' (N @ CHR ''/'' # t) = N # split_on CHR ''/'' t"
  using assms by (simp_all add: valid_name_def split_on_no_sep split_on_sep)

lemmas path_simps = valid_nameD split_on_slash_valid is_rooted_valid is_rooted_simps
  Join_def Clean_def clean_push_def names_of_def Let_def

lemma mkdir_root:
  assumes "valid_name N" and "fs [N] = None"
  shows "os_Mkdir fs N = Inr (fs([N] \<mapsto> Dir))"
  using assms
  by (simp add: os_Mkdir_def parent_and_name_def strip_slashes_def node_at_def path_simps)

subsection \<open>The path of the entry point\<close>

text \<open>
  Whatever the name is, the cleaned path of the entry point ends in \<^verbatim>\<open>main.go\<close>, so it
  is none of the five other paths of \<open>files\<close>.
\<close>

lemma split_on_append_sep: "split_on d (s @ d # t) = split_on d s @ split_on d t"
proof (induction s)
  case Nil
  show ?case by simp
next
  case (Cons c s)
  obtain w ws where "split_on d s = w # ws"
    using split_on_not_Nil [of d s] by (cases "split_on d s") auto
  with Cons show ?case by simp
qed

lemma join_slash_snoc: "join_slash (ys @ [e]) = (if ys = [] then e else join_slash ys @ CHR ''/'' # e)"
  by (induction ys rule: join_slash.induct) auto

lemma Clean_last_name:
  assumes "e \<noteq> []" "e \<noteq> ''.''" "e \<noteq> ''..''" "CHR ''/'' \<notin> set e"
  shows "suffix e (Clean (s @ CHR ''/'' # e))"
proof -
  let ?r = "is_rooted (s @ CHR ''/'' # e)"
  let ?ys = "foldl (clean_push ?r) [] (split_on CHR ''/'' s)"
  have "split_on CHR ''/'' (s @ CHR ''/'' # e) = split_on CHR ''/'' s @ [e]"
    using assms by (simp add: split_on_append_sep split_on_no_sep)
  then have "foldl (clean_push ?r) [] (split_on CHR ''/'' (s @ CHR ''/'' # e)) = ?ys @ [e]"
    using assms by (simp add: clean_push_def)
  then have "Clean (s @ CHR ''/'' # e) = (if ?r then ''/'' else []) @ join_slash (?ys @ [e])"
    using assms by (simp add: Clean_def Let_def join_slash_snoc)
  then show ?thesis
    by (simp add: join_slash_snoc suffix_def)
qed

lemma main_go_path: "suffix ''main.go'' (Join [''cmd'', N, ''main.go''])"
proof -
  have "Join [''cmd'', N, ''main.go''] = Clean ((''cmd/'' @ N) @ CHR ''/'' # ''main.go'')"
    by (cases N) (simp_all add: Join_def)
  moreover have "suffix ''main.go'' (Clean ((''cmd/'' @ N) @ CHR ''/'' # ''main.go''))"
    by (rule Clean_last_name) simp_all
  ultimately show ?thesis
    by (simp only:)
qed

lemma main_go_path_neq:
  "Join [''cmd'', N, ''main.go''] \<noteq> ''.env''"
  "Join [''cmd'', N, ''main.go''] \<noteq> ''.gitignore''"
  "Join [''cmd'', N, ''main.go''] \<noteq> ''Makefile''"
  "Join [''cmd'', N, ''main.go''] \<noteq> ''pkg/logger/logger.go''"
  "Join [''cmd'', N, ''main.go''] \<noteq> ''pkg/config/config.go''"
  using main_go_path [of N] by (auto simp: suffix_def Cons_eq_append_conv append_eq_Cons_conv)

lemma files_static:
  "map_of (files N) ''.env'' = Some envFileContent"
  "map_of (files N) ''.gitignore'' = Some gitignoreContent"
  "map_of (files N) ''Makefile'' = Some (makefileContent N)"
  "map_of (files N) ''pkg/logger/logger.go'' = Some loggerGoContent"
  "map_of (files N) ''pkg/config/config.go'' = Some configGoContent"
  "map_of (files N) (Join [''cmd'', N, ''main.go'']) = Some (mainGoContent N)"
  using main_go_path_neq [of N] by (simp_all add: files_def Join_def Clean_def clean_push_def is_rooted_def)

subsection \<open>A run in a fresh directory\<close>

text \<open>
  The steps of \<open>main\<close> for a valid name \<open>N\<close> when nothing is at \<open>N\<close> or below it:
  each step succeeds and adds its entries.
\<close>

lemma create_dirs_fresh:
  assumes "valid_name N" and "\<forall>q. fs (N # q) = None"
  shows "create_dirs (fs([N] \<mapsto> Dir)) N (dirs N) =
    Done (write_all fs (([N], Dir) # map (\<lambda>d. (d, Dir)) (made_dirs N)))"
  using assms
  by (simp add: write_all_def dirs_def made_dirs_def os_MkdirAll_def node_at_def NAME_MAX_def path_simps)

lemma create_files_fresh:
  assumes "valid_name N" and "\<forall>q. fs (N # q) = None"
  shows "create_files (write_all fs (([N], Dir) # map (\<lambda>d. (d, Dir)) (made_dirs N))) N (files N) =
    Done (write_all fs (([N], Dir) # map (\<lambda>d. (d, Dir)) (made_dirs N) @ map (\<lambda>(f, c). (f, File c)) (made_files N)))"
  using assms
  by (simp add: write_all_def made_dirs_def made_files_def files_def createFile_def os_Create_def WriteString_def
      parent_and_name_def strip_slashes_def node_at_def NAME_MAX_def path_simps)

lemma initGit_fresh:
  assumes "valid_name N" and "\<forall>q. fs (N # q) = None"
  shows "initGit (GitSucceeds tree) (write_all fs (([N], Dir) # map (\<lambda>d. (d, Dir)) (made_dirs N) @ map (\<lambda>(f, c). (f, File c)) (made_files N))) N =
    Done ((write_all fs (([N], Dir) # map (\<lambda>d. (d, Dir)) (made_dirs N) @ map (\<lambda>(f, c). (f, File c)) (made_files N)) ++
           map_of (git_tree [N] tree))([N, ''.git''] \<mapsto> Dir))"
proof -
  let ?fs = "write_all fs (([N], Dir) # map (\<lambda>d. (d, Dir)) (made_dirs N) @ map (\<lambda>(f, c). (f, File c)) (made_files N))"
  from assms have "walk ?fs [] [N] = Inr [N]"
    by (simp add: write_all_def made_dirs_def made_files_def node_at_def NAME_MAX_def path_simps)
  moreover from assms have "node_at ?fs [N] = Some Dir"
    by (simp add: write_all_def made_dirs_def made_files_def node_at_def)
  moreover from assms have "N \<noteq> []" and "names_of N = Inr [N]"
    by (simp_all add: path_simps)
  ultimately show ?thesis
    by (simp add: initGit_def run_git_init_def)
qed

lemma git_tree_dom: "dom (map_of (git_tree [N] tree)) \<subseteq> {p. \<exists>r. p = N # ''.git'' # r}"
  by (auto simp: git_tree_def dom_map_of_conv_image_fst)

lemma git_tree_outside:
  assumes "\<not> (\<exists>r. p = N # ''.git'' # r)"
  shows "map_of (git_tree [N] tree) p = None"
  using assms git_tree_dom [of N tree] by blast

lemma write_all_map_add: "write_all fs xs = fs ++ map_of (rev xs)"
proof (induction xs arbitrary: fs)
  case Nil
  show ?case by (simp add: write_all_def)
next
  case (Cons x xs)
  obtain p n where x: "x = (p, n)" by (cases x)
  have "write_all fs (x # xs) = write_all (fs(p \<mapsto> n)) xs"
    by (simp add: write_all_def x)
  also have "\<dots> = fs(p \<mapsto> n) ++ map_of (rev xs)"
    by (rule Cons.IH)
  also have "\<dots> = fs ++ map_of (rev (x # xs))"
    by (simp add: x)
  finally show ?case .
qed

lemma made_scaffold: "map_of (rev (made N)) = map_of (scaffold N)"
proof -
  have "distinct (map fst (rev (made N)))"
    by (simp add: made_def made_dirs_def made_files_def)
  moreover have "distinct (map fst (scaffold N))"
    by (simp add: scaffold_def manifest_dirs_def parent_dirs_def manifest_files_def)
  moreover have "set (rev (made N)) = set (scaffold N)"
    by (simp add: made_def made_dirs_def made_files_def scaffold_def manifest_dirs_def parent_dirs_def manifest_files_def
        insert_commute)
  ultimately show ?thesis
    by (simp add: map_of_inject_set)
qed

lemma below_fresh:
  assumes "tree_closed fs" and "fs [N] = None"
  shows "fs (N # q) = None"
proof (induction q rule: rev_induct)
  case Nil
  from assms(2) show ?case .
next
  case (snoc x xs)
  show ?case
  proof (rule ccontr)
    assume "fs (N # xs @ [x]) \<noteq> None"
    with assms(1) have "node_at fs (butlast (N # xs @ [x])) = Some Dir"
      unfolding tree_closed_def by blast
    then have "fs (N # xs) = Some Dir"
      by (simp add: node_at_def butlast_append)
    with snoc show False by simp
  qed
qed

lemma main_run:
  assumes "valid_name N" and "\<forall>q. fs (N # q) = None"
  shows "main (GitSucceeds tree) (prog # N # rest) fs =
    \<lparr>status = 0, stdout = ''Project '' @ N @ '' has been created successfully!\<newline>'', stderr = [],
     disk = (write_all fs (([N], Dir) # map (\<lambda>d. (d, Dir)) (made_dirs N) @ map (\<lambda>(f, c). (f, File c)) (made_files N)) ++
             map_of (git_tree [N] tree))([N, ''.git''] \<mapsto> Dir)\<rparr>"
proof -
  have out: "Sprintf ''Project %s has been created successfully!\<newline>'' [N] =
      ''Project '' @ N @ '' has been created successfully!\<newline>''"
    by (simp add: Sprintf_def)
  from assms have "os_Mkdir fs N = Inr (fs([N] \<mapsto> Dir))"
    by (simp add: mkdir_root)
  then show ?thesis
    unfolding main_def
    by (simp add: create_dirs_fresh [OF assms] create_files_fresh [OF assms] initGit_fresh [OF assms] out)
qed

lemma main_success:
  assumes "valid_name N" and "tree_closed fs" and "fs [N] = None"
  shows "main (GitSucceeds tree) (prog # N # rest) fs =
    \<lparr>status = 0, stdout = ''Project '' @ N @ '' has been created successfully!\<newline>'', stderr = [],
     disk = fs ++ map_of (git_tree [N] tree) ++ map_of (scaffold N)\<rparr>"
proof -
  let ?X = "([N], Dir) # map (\<lambda>d. (d, Dir)) (made_dirs N) @ map (\<lambda>(f, c). (f, File c)) (made_files N)"
  let ?G = "map_of (git_tree [N] tree)"
  from assms(2,3) have fresh: "\<forall>q. fs (N # q) = None"
    by (simp add: below_fresh)
  have "dom (map_of (rev ?X)) \<inter> {p. \<exists>r. p = N # ''.git'' # r} = {}"
    by (simp add: dom_map_of_conv_image_fst made_dirs_def made_files_def)
  with git_tree_dom [of N tree] have "dom (map_of (rev ?X)) \<inter> dom ?G = {}"
    by blast
  then have comm: "map_of (rev ?X) ++ ?G = ?G ++ map_of (rev ?X)"
    by (rule map_add_comm)
  have last: "(map_of (rev ?X))([N, ''.git''] \<mapsto> Dir) = map_of (rev (made N))"
    by (simp add: made_def)
  have "(write_all fs ?X ++ ?G)([N, ''.git''] \<mapsto> Dir) = (fs ++ (map_of (rev ?X) ++ ?G))([N, ''.git''] \<mapsto> Dir)"
    by (simp only: write_all_map_add map_add_assoc)
  also have "\<dots> = (fs ++ ?G ++ map_of (rev ?X))([N, ''.git''] \<mapsto> Dir)"
    by (simp only: comm map_add_assoc)
  also have "\<dots> = fs ++ ?G ++ (map_of (rev ?X))([N, ''.git''] \<mapsto> Dir)"
    by (simp only: map_add_upd)
  also have "\<dots> = fs ++ ?G ++ map_of (scaffold N)"
    by (simp only: last made_scaffold)
  finally show ?thesis
    by (simp only: main_run [OF assms(1) fresh])
qed

subsection \<open>A run that stops at once\<close>

text \<open>
  Resolving a path is compositional, so a path that \<open>os_Stat\<close> resolves to an entry is
  refused by \<open>os_Mkdir\<close> with \<open>EEXIST\<close>, whatever its form.
\<close>

lemma walk_append:
  "walk fs cur (as @ bs) = (case walk fs cur as of Inl e \<Rightarrow> Inl e | Inr q \<Rightarrow> walk fs q bs)"
  by (induction as arbitrary: cur) (auto split: option.splits node.splits)

lemma walk_empties: "\<forall>c\<in>set es. c = [] \<Longrightarrow> walk fs cur es = Inr q \<Longrightarrow> q = cur"
  by (induction es arbitrary: cur) (auto split: option.splits node.splits)

lemma walk_Cons_dir: "walk fs cur (c # es) = Inr q \<Longrightarrow> node_at fs cur = Some Dir"
  by (auto split: option.splits node.splits)

lemma strip_slashes_decomp: "\<exists>es. cs = strip_slashes cs @ es \<and> (\<forall>c\<in>set es. c = [])"
proof -
  let ?P = "\<lambda>c::string. c = []"
  have "strip_slashes cs @ rev (takeWhile ?P (rev cs)) =
      rev (takeWhile ?P (rev cs) @ dropWhile ?P (rev cs))"
    by (simp only: strip_slashes_def rev_append)
  also have "\<dots> = cs"
    by (simp only: takeWhile_dropWhile_id rev_rev_ident)
  finally have "cs = strip_slashes cs @ rev (takeWhile ?P (rev cs))"
    by (rule sym)
  moreover have "\<forall>c\<in>set (rev (takeWhile ?P (rev cs))). c = []"
    by (auto dest: set_takeWhileD)
  ultimately show ?thesis by blast
qed

lemma strip_slashes_last:
  assumes "strip_slashes cs \<noteq> []"
  shows "last (strip_slashes cs) \<noteq> []"
proof -
  let ?ys = "dropWhile (\<lambda>c::string. c = []) (rev cs)"
  from assms have ys: "?ys \<noteq> []"
    by (simp only: strip_slashes_def rev_is_Nil_conv not_False_eq_True)
  then have "hd ?ys \<noteq> []"
    by (rule hd_dropWhile)
  moreover from ys have "last (rev ?ys) = hd ?ys"
    by (simp only: last_rev)
  ultimately show ?thesis
    by (simp add: strip_slashes_def)
qed

lemma mkdir_exists:
  assumes "os_Stat fs p = Inr n"
  shows "os_Mkdir fs p = Inl EEXIST"
proof -
  from assms obtain cs q where cs: "names_of p = Inr cs" and w: "walk fs [] cs = Inr q"
    and n: "node_at fs q = Some n"
    by (auto simp: os_Stat_def split: sum.splits option.splits)
  obtain es where dec: "cs = strip_slashes cs @ es" and es: "\<forall>c\<in>set es. c = []"
    using strip_slashes_decomp by blast
  show ?thesis
  proof (cases "strip_slashes cs = []")
    case True
    with cs show ?thesis
      by (simp add: os_Mkdir_def parent_and_name_def)
  next
    case False
    define bs where "bs = butlast (strip_slashes cs)"
    define c where "c = last (strip_slashes cs)"
    from False have ds: "strip_slashes cs = bs @ [c]"
      by (simp add: bs_def c_def)
    from False have c: "c \<noteq> []"
      by (simp add: c_def strip_slashes_last)
    from dec ds have "cs = bs @ (c # es)" by simp
    with w have "walk fs [] (bs @ (c # es)) = Inr q" by simp
    then obtain q' where q': "walk fs [] bs = Inr q'" and w': "walk fs q' (c # es) = Inr q"
      by (auto simp: walk_append split: sum.splits)
    from w' have dir: "node_at fs q' = Some Dir"
      by (rule walk_Cons_dir)
    from False obtain d ds' where nonempty: "strip_slashes cs = d # ds'"
      by (cases "strip_slashes cs") auto
    have pn: "parent_and_name fs p = Inr (q', c)"
      using cs q' dir nonempty by (simp add: parent_and_name_def bs_def c_def)
    show ?thesis
    proof (cases "c = ''.'' \<or> c = ''..''")
      case True
      with pn show ?thesis by (auto simp: os_Mkdir_def)
    next
      case False
      with w' dir c have len: "\<not> NAME_MAX < length c" and "walk fs (q' @ [c]) es = Inr q"
        by (auto split: if_splits)
      with es have "q = q' @ [c]"
        by (auto dest: walk_empties)
      with n have "node_at fs (q' @ [c]) = Some n" by simp
      with pn False c len show ?thesis
        by (simp add: os_Mkdir_def)
    qed
  qed
qed

lemma main_exists:
  assumes "os_Stat fs N = Inr n"
  shows "main g (prog # N # rest) fs =
    \<lparr>status = 1, stdout = [],
     stderr = ''Failed to create project directory: mkdir '' @ N @ '': file exists\<newline>'', disk = fs\<rparr>"
proof -
  have "Sprintf ''Failed to create project directory: %v'' [''mkdir '' @ N @ '': file exists''] =
      ''Failed to create project directory: mkdir '' @ N @ '': file exists''"
    by (simp add: Sprintf_def)
  with mkdir_exists [OF assms] show ?thesis
    by (simp add: main_def fatal_def NL_def)
qed

lemma main_no_argument:
  assumes "length args < 2"
  shows "main g args fs =
    \<lparr>status = 1, stdout = [], stderr = ''Please provide a project name as an argument.\<newline>'', disk = fs\<rparr>"
  using assms by (simp add: main_def fatal_def NL_def)

subsection \<open>When a run succeeds\<close>

text \<open>
  With a failing \<^verbatim>\<open>git init\<close> the run ends with status 1 after it has made the
  directories and files. So a run with a valid name succeeds exactly when the name is
  free and \<^verbatim>\<open>git init\<close> works.
\<close>

lemma initGit_fails_fresh:
  assumes "valid_name N" and "\<forall>q. fs (N # q) = None"
  shows "initGit (GitFails msg) (write_all fs (([N], Dir) # map (\<lambda>d. (d, Dir)) (made_dirs N) @ map (\<lambda>(f, c). (f, File c)) (made_files N))) N =
    Failed (''Failed to initialize Git: '' @ msg)
      (write_all fs (([N], Dir) # map (\<lambda>d. (d, Dir)) (made_dirs N) @ map (\<lambda>(f, c). (f, File c)) (made_files N)))"
proof -
  have "Sprintf ''Failed to initialize Git: %v'' [msg] = ''Failed to initialize Git: '' @ msg"
    by (simp add: Sprintf_def)
  with assms show ?thesis
    by (simp add: write_all_def made_dirs_def made_files_def initGit_def run_git_init_def
        node_at_def NAME_MAX_def path_simps)
qed

lemma main_git_fails:
  assumes "valid_name N" and "tree_closed fs" and "fs [N] = None"
  shows "status (main (GitFails msg) (prog # N # rest) fs) = 1"
proof -
  from assms(2,3) have fresh: "\<forall>q. fs (N # q) = None"
    by (simp add: below_fresh)
  from assms(1,3) have "os_Mkdir fs N = Inr (fs([N] \<mapsto> Dir))"
    by (simp add: mkdir_root)
  then show ?thesis
    unfolding main_def
    by (simp add: create_dirs_fresh [OF assms(1) fresh] create_files_fresh [OF assms(1) fresh]
        initGit_fails_fresh [OF assms(1) fresh] fatal_def)
qed

lemma stat_valid:
  assumes "valid_name N" and "fs [N] = Some n"
  shows "os_Stat fs N = Inr n"
  using assms by (simp add: os_Stat_def node_at_def path_simps)

lemma main_status_valid:
  assumes "valid_name N" and "tree_closed fs"
  shows "(status (main g (prog # N # rest) fs) = 0) = (fs [N] = None \<and> (\<exists>tree. g = GitSucceeds tree))"
proof (cases "fs [N]")
  case None
  show ?thesis
  proof (cases g)
    case (GitFails msg)
    with None assms show ?thesis
      by (simp add: main_git_fails)
  next
    case (GitSucceeds tree)
    with None assms show ?thesis
      by (simp add: main_success)
  qed
next
  case (Some n)
  with assms(1) have "os_Stat fs N = Inr n"
    by (rule stat_valid)
  with Some show ?thesis
    by (simp add: main_exists)
qed

subsection \<open>The tree of a project\<close>

text \<open>
  The entries of \<open>scaffold N\<close> below \<open>N\<close>, and the file system of a successful run there.
\<close>

lemma map_of_dirs_below:
  "map_of (map (\<lambda>d. (N # d, Dir)) ds) (N # q) = (if q \<in> set ds then Some Dir else None)"
  by (induction ds) auto

lemma map_of_files_below:
  "map_of (map (\<lambda>(f, c). (N # f, File c)) fl) (N # q) = map_option File (map_of fl q)"
  by (induction fl) auto

lemma scaffold_below:
  "map_of (scaffold N) (N # q) =
     (if q \<in> set ([] # manifest_dirs N @ parent_dirs @ [[''.git'']]) then Some Dir
      else map_option File (map_of (manifest_files N) q))"
  unfolding scaffold_def map_of_append map_add_def map_of_dirs_below map_of_files_below
  by (simp split: option.splits)

lemma manifest_disjoint:
  "q \<in> set ([] # manifest_dirs N @ parent_dirs @ [[''.git'']]) \<Longrightarrow> map_of (manifest_files N) q = None"
  by (auto simp: manifest_dirs_def parent_dirs_def manifest_files_def)

lemma scaffold_dirs_set:
  "{q. map_of (scaffold N) (N # q) = Some Dir} = set ([] # manifest_dirs N @ parent_dirs @ [[''.git'']])"
  by (auto simp: scaffold_below split: if_splits)

lemma scaffold_files_set:
  "{q. \<exists>c. map_of (scaffold N) (N # q) = Some (File c)} = fst ` set (manifest_files N)"
proof -
  have "distinct (map fst (manifest_files N))"
    by (simp add: manifest_files_def)
  have "(\<exists>c. map_of (scaffold N) (N # q) = Some (File c)) = (q \<in> fst ` set (manifest_files N))" for q
  proof (cases "q \<in> set ([] # manifest_dirs N @ parent_dirs @ [[''.git'']])")
    case True
    then have "map_of (manifest_files N) q = None"
      by (rule manifest_disjoint)
    then have "q \<notin> fst ` set (manifest_files N)"
      by (simp add: map_of_eq_None_iff)
    with True show ?thesis
      by (simp add: scaffold_below)
  next
    case False
    then have eq: "map_of (scaffold N) (N # q) = map_option File (map_of (manifest_files N) q)"
      by (simp only: scaffold_below if_False)
    have "(\<exists>c. map_of (manifest_files N) q = Some c) = (q \<in> fst ` set (manifest_files N))"
      using map_of_eq_None_iff [of "manifest_files N" q] by (cases "map_of (manifest_files N) q") simp_all
    then show ?thesis
      unfolding eq by (cases "map_of (manifest_files N) q") simp_all
  qed
  then show ?thesis by blast
qed

lemma scaffold_inside:
  assumes "below_git q"
  shows "map_of (scaffold N) (N # q) = None"
proof -
  from assms obtain r where "q = ''.git'' # r" and "r \<noteq> []"
    by (cases q) (simp_all add: below_git_def)
  then show ?thesis
    by (simp add: scaffold_below manifest_dirs_def parent_dirs_def manifest_files_def)
qed

lemma disk_below:
  assumes "valid_name N" and "tree_closed fs" and "fs [N] = None"
    and "\<not> below_git q"
  shows "disk (main (GitSucceeds tree) (prog # N # rest) fs) (N # q) = map_of (scaffold N) (N # q)"
proof (cases "q = [''.git'']")
  case True
  have "map_of (scaffold N) [N, ''.git''] = Some Dir"
    by (simp add: scaffold_below)
  then show ?thesis
    by (simp add: main_success [OF assms(1-3)] True)
next
  case False
  from assms(2,3) have "fs (N # q) = None"
    by (rule below_fresh)
  moreover have "map_of (git_tree [N] tree) (N # q) = None"
  proof (rule git_tree_outside)
    from assms(4) False show "\<not> (\<exists>r. N # q = N # ''.git'' # r)"
      by (auto simp: below_git_def)
  qed
  ultimately show ?thesis
    by (simp add: main_success [OF assms(1-3)] map_add_def split: option.splits)
qed

lemma disk_file:
  assumes "valid_name N" and "tree_closed fs" and "fs [N] = None"
    and "(f, c) \<in> set (manifest_files N)"
  shows "disk (main (GitSucceeds tree) (prog # N # rest) fs) (N # f) = Some (File c)"
proof -
  have "distinct (map fst (manifest_files N))"
    by (simp add: manifest_files_def)
  with assms(4) have c: "map_of (manifest_files N) f = Some c"
    by simp
  then have "f \<notin> set ([] # manifest_dirs N @ parent_dirs @ [[''.git'']])"
    using manifest_disjoint [of f N] by auto
  with c have "map_of (scaffold N) (N # f) = Some (File c)"
    by (simp only: scaffold_below if_False option.map)
  moreover from assms(4) have out: "\<not> below_git f"
    by (auto simp: manifest_files_def below_git_def)
  ultimately show ?thesis
    by (simp only: disk_below [OF assms(1-3) out])
qed

subsection \<open>The lines of the generated files\<close>

text \<open>
  The lines of the two rendered texts when the name has no line feed, the rules of the
  makefile, and the lines that assign a variable.
\<close>

lemma split_on_unlines:
  "\<forall>l\<in>set ls. NL \<notin> set l \<Longrightarrow> split_on NL (unlines ls) = ls @ [[]]"
  by (induction ls) (simp_all add: unlines_def split_on_sep)

lemma lines_of_unlines: "\<forall>l\<in>set ls. NL \<notin> set l \<Longrightarrow> lines_of (unlines ls) = ls"
  by (simp add: lines_of_def split_on_unlines)

lemma makefile_lines:
  assumes "NL \<notin> set N"
  shows "lines_of (makefileContent N) =
    [''run:'',
     TAB # ''go run cmd/'' @ N @ ''/main.go'',
     '''',
     ''test:'',
     TAB # ''go test ./...'',
     '''',
     ''migrate:'',
     TAB # ''migrate -path ./migrations -database $(DB_URL) up'']"
  unfolding makefileContent_lines
  using assms by (intro lines_of_unlines) (simp add: NL_def TAB_def)

lemma makefile_rules_eq:
  assumes "NL \<notin> set N"
  shows "makefile_rules (makefileContent N) =
    [(''run'', [''go run cmd/'' @ N @ ''/main.go'']),
     (''test'', [''go test ./...'']),
     (''migrate'', [''migrate -path ./migrations -database $(DB_URL) up''])]"
  unfolding makefile_rules_def makefile_lines [OF assms]
  by (simp add: is_rule_line_def is_recipe_line_def assignment_of_def blank_def TAB_def Let_def)

lemma run_recipe_line_feed:
  "map_of (makefile_rules (makefileContent ''a\<newline>b'')) ''run'' = Some [''go run cmd/a''] \<and>
   \<not> sublist ''cmd/a\<newline>b/main'' ''go run cmd/a''"
proof -
  have "\<not> sublist ''cmd/a\<newline>b/main'' ''go run cmd/a''"
  proof
    assume "sublist ''cmd/a\<newline>b/main'' ''go run cmd/a''"
    then have "set ''cmd/a\<newline>b/main'' \<subseteq> set ''go run cmd/a''"
      by (rule set_mono_sublist)
    then show False by simp
  qed
  moreover have "lines_of (makefileContent ''a\<newline>b'') =
    [''run:'',
     TAB # ''go run cmd/a'',
     ''b/main.go'',
     '''',
     ''test:'',
     TAB # ''go test ./...'',
     '''',
     ''migrate:'',
     TAB # ''migrate -path ./migrations -database $(DB_URL) up'']"
    by (simp add: makefileContent_lines unlines_def lines_of_def NL_def TAB_def)
  then have "map_of (makefile_rules (makefileContent ''a\<newline>b'')) ''run'' = Some [''go run cmd/a'']"
    unfolding makefile_rules_def
    by (simp add: is_rule_line_def is_recipe_line_def assignment_of_def blank_def TAB_def Let_def)
  ultimately show ?thesis by simp
qed

lemma mainGo_lines:
  assumes "NL \<notin> set N"
  shows \<open>lines_of (mainGoContent N) =
    [''package main'',
     '''',
     ''import ('',
     TAB # ''"fmt"'',
     TAB # ''"log"'',
     '''',
     TAB # ''"'' @ N @ ''/pkg/config"'',
     TAB # ''"'' @ N @ ''/pkg/logger"'',
     '')'',
     '''',
     ''func main() {'',
     TAB # ''// Load configuration'',
     TAB # ''cfg := config.LoadConfig()'',
     '''',
     TAB # ''// Initialize logger'',
     TAB # ''log, err := logger.NewLogger(cfg.LogFile)'',
     TAB # ''if err != nil {'',
     TAB # TAB # ''log.Fatalf("Failed to initialize logger: %v", err)'',
     TAB # ''}'',
     '''',
     TAB # ''log.Info().Msg("Starting the application")'',
     TAB # ''fmt.Println("Server Port:", cfg.ServerPort)'',
     ''}'']\<close>
  unfolding mainGoContent_lines
  using assms by (intro lines_of_unlines) (simp add: NL_def TAB_def)

lemmas assigned_simps = assigned_def assignment_of_def blank_def TAB_def Let_def

lemma static_not_assigned:
  "\<not> assigned ''DB_URL'' envFileContent"
  "\<not> assigned ''DB_URL'' gitignoreContent"
  "\<not> assigned ''DB_URL'' loggerGoContent"
  "\<not> assigned ''DB_URL'' configGoContent"
  by (simp_all add: envFileContent_def gitignoreContent_def loggerGoContent_def configGoContent_def
      lines_of_unlines NL_def assigned_simps)

lemma makefile_not_assigned:
  assumes "NL \<notin> set N"
  shows "\<not> assigned ''DB_URL'' (makefileContent N)"
  unfolding assigned_def makefile_lines [OF assms]
  by (simp add: assignment_of_def blank_def TAB_def Let_def)

lemma mainGo_not_assigned:
  assumes "NL \<notin> set N"
  shows "\<not> assigned ''DB_URL'' (mainGoContent N)"
  unfolding assigned_def mainGo_lines [OF assms]
  by (simp add: assignment_of_def blank_def TAB_def Let_def)

lemma assigned_line_feed: "assigned ''DB_URL'' (makefileContent ''x\<newline>DB_URL=y'')"
  by (simp add: makefileContent_lines unlines_def lines_of_def NL_def assigned_simps)

section \<open>The claims\<close>

text \<open>
  C1. For every valid project name \<open>N\<close>: a run succeeds (exit status 0) exactly when
  nothing called \<open>N\<close> is in the working directory and \<^verbatim>\<open>git init\<close> works, and a run
  that succeeds prints the line of success and creates the directory \<open>N\<close> holding
  exactly the manifest, beside what git keeps inside \<open>N/.git\<close>. The file system after
  the run is the one before it with the entries git has written below \<open>N/.git\<close> and
  the entries of \<open>scaffold N\<close> added. Below \<open>N\<close> and outside \<open>N/.git\<close>, the directories
  are exactly the fourteen of the manifest (\<^verbatim>\<open>cmd/N\<close> among them), the five directories
  that lie above them and the repository's directory \<^verbatim>\<open>.git\<close> itself; the regular files
  are exactly the six of the manifest, each with the content of its generator.
\<close>

theorem project_created:
  assumes "valid_name N" and "tree_closed fs"
  shows
    "(let r = main g (prog # N # rest) fs in
        (status r = 0) = (fs [N] = None \<and> (\<exists>tree. g = GitSucceeds tree)) \<and>
        (status r = 0 \<longrightarrow>
           stdout r = ''Project '' @ N @ '' has been created successfully!\<newline>'' \<and>
           stderr r = [] \<and>
           (\<forall>tree. g = GitSucceeds tree \<longrightarrow>
              disk r = fs ++ map_of (git_tree [N] tree) ++ map_of (scaffold N)) \<and>
           {q. \<not> below_git q \<and> disk r (N # q) = Some Dir} =
             set ([] # manifest_dirs N @ parent_dirs @ [[''.git'']]) \<and>
           {q. \<not> below_git q \<and> (\<exists>c. disk r (N # q) = Some (File c))} =
             fst ` set (manifest_files N) \<and>
           (\<forall>f c. (f, c) \<in> set (manifest_files N) \<longrightarrow> disk r (N # f) = Some (File c)))) \<and>
     length (manifest_dirs N) = 14 \<and> distinct (manifest_dirs N) \<and>
     length (manifest_files N) = 6 \<and> distinct (map fst (manifest_files N))"
proof -
  let ?r = "main g (prog # N # rest) fs"
  have iff: "(status ?r = 0) = (fs [N] = None \<and> (\<exists>tree. g = GitSucceeds tree))"
    using assms by (rule main_status_valid)
  have tree: "stdout ?r = ''Project '' @ N @ '' has been created successfully!\<newline>'' \<and>
      stderr ?r = [] \<and>
      (\<forall>tree. g = GitSucceeds tree \<longrightarrow>
         disk ?r = fs ++ map_of (git_tree [N] tree) ++ map_of (scaffold N)) \<and>
      {q. \<not> below_git q \<and> disk ?r (N # q) = Some Dir} =
        set ([] # manifest_dirs N @ parent_dirs @ [[''.git'']]) \<and>
      {q. \<not> below_git q \<and> (\<exists>c. disk ?r (N # q) = Some (File c))} =
        fst ` set (manifest_files N) \<and>
      (\<forall>f c. (f, c) \<in> set (manifest_files N) \<longrightarrow> disk ?r (N # f) = Some (File c))"
    if ok: "status ?r = 0"
  proof -
    from ok iff have fresh: "fs [N] = None"
      by simp
    from ok iff obtain tree where g: "g = GitSucceeds tree"
      by blast
    let ?d = "disk (main (GitSucceeds tree) (prog # N # rest) fs)"
    have eq: "(\<not> below_git q \<and> ?d (N # q) = Some n) = (map_of (scaffold N) (N # q) = Some n)" for q n
    proof (cases "below_git q")
      case True
      then have "map_of (scaffold N) (N # q) = None"
        by (rule scaffold_inside)
      with True show ?thesis
        by simp
    next
      case False
      then show ?thesis
        by (simp only: disk_below [OF assms fresh False] simp_thms)
    qed
    have "{q. \<not> below_git q \<and> ?d (N # q) = Some Dir} =
        set ([] # manifest_dirs N @ parent_dirs @ [[''.git'']])"
      by (simp only: eq scaffold_dirs_set)
    moreover
    have "(\<not> below_git q \<and> (\<exists>c. ?d (N # q) = Some (File c))) =
        (\<exists>c. map_of (scaffold N) (N # q) = Some (File c))" for q
      using eq [of q] by blast
    then have "{q. \<not> below_git q \<and> (\<exists>c. ?d (N # q) = Some (File c))} =
        fst ` set (manifest_files N)"
      by (simp only: scaffold_files_set)
    moreover
    have "\<forall>f c. (f, c) \<in> set (manifest_files N) \<longrightarrow> ?d (N # f) = Some (File c)"
      using disk_file [OF assms fresh] by blast
    moreover
    have "stdout (main (GitSucceeds tree) (prog # N # rest) fs) =
        ''Project '' @ N @ '' has been created successfully!\<newline>''"
      by (simp only: main_success [OF assms fresh] outcome.simps)
    moreover
    have "stderr (main (GitSucceeds tree) (prog # N # rest) fs) = []"
      by (simp only: main_success [OF assms fresh] outcome.simps)
    moreover
    have "disk (main (GitSucceeds tree) (prog # N # rest) fs) =
        fs ++ map_of (git_tree [N] tree) ++ map_of (scaffold N)"
      by (simp only: main_success [OF assms fresh] outcome.simps)
    ultimately show ?thesis
      unfolding g by (simp only: git.inject simp_thms)
  qed
  have "length (manifest_dirs N) = 14 \<and> distinct (manifest_dirs N)"
    by (simp add: manifest_dirs_def)
  moreover have "length (manifest_files N) = 6 \<and> distinct (map fst (manifest_files N))"
    by (simp add: manifest_files_def)
  ultimately show ?thesis
    using iff tree by (simp only: Let_def) blast
qed

text \<open>
  The witness is a run with the name \<open>myapi\<close> in an empty working directory, where git
  leaves the entries of \<open>fresh_repository\<close>.
\<close>

theorem project_created_witness:
  "valid_name ''myapi'' \<and> tree_closed Map.empty \<and>
   status (main (GitSucceeds fresh_repository) [''gogo'', ''myapi''] Map.empty) = 0 \<and>
   stdout (main (GitSucceeds fresh_repository) [''gogo'', ''myapi''] Map.empty) =
     ''Project myapi has been created successfully!\<newline>'' \<and>
   disk (main (GitSucceeds fresh_repository) [''gogo'', ''myapi''] Map.empty)
     [''myapi'', ''cmd'', ''myapi''] = Some Dir \<and>
   disk (main (GitSucceeds fresh_repository) [''gogo'', ''myapi''] Map.empty)
     [''myapi'', ''cmd'', ''myapi'', ''main.go''] = Some (File (mainGoContent ''myapi'')) \<and>
   disk (main (GitSucceeds fresh_repository) [''gogo'', ''myapi''] Map.empty)
     [''myapi'', ''.git''] = Some Dir \<and>
   disk (main (GitSucceeds fresh_repository) [''gogo'', ''myapi''] Map.empty)
     [''myapi'', ''.git'', ''HEAD''] = Some (File ''ref: refs/heads/master\<newline>'') \<and>
   below_git [''.git'', ''HEAD''] \<and> \<not> below_git [''.git'']"
proof -
  have v: "valid_name ''myapi''"
    by (simp add: valid_name_def NAME_MAX_def)
  have t: "tree_closed Map.empty"
    by (simp add: tree_closed_def)
  from project_created [OF v t, of "GitSucceeds fresh_repository" "''gogo''" "[]"] v t
  show ?thesis
    by (simp add: Let_def scaffold_def manifest_dirs_def parent_dirs_def manifest_files_def
        git_tree_def fresh_repository_def below_git_def)
qed

text \<open>
  C2. For every project name \<open>N\<close>, the content of the generated entry-point file has both
  \<open>N/pkg/config\<close> and \<open>N/pkg/logger\<close> as contiguous substrings: the name is inserted
  once into each of the two import paths.
\<close>

theorem entry_point_imports:
  "sublist (N @ ''/pkg/config'') (mainGoContent N) \<and>
   sublist (N @ ''/pkg/logger'') (mainGoContent N)"
proof
  have "sublist (N @ ''/pkg/config'') ([TAB, CHR 0x22] @ (N @ ''/pkg/config'') @ [CHR 0x22])"
    by (rule sublist_mid)
  then show "sublist (N @ ''/pkg/config'') (mainGoContent N)"
    unfolding mainGoContent_lines by (rule sublist_unlines [rotated]) simp
  have "sublist (N @ ''/pkg/logger'') ([TAB, CHR 0x22] @ (N @ ''/pkg/logger'') @ [CHR 0x22])"
    by (rule sublist_mid)
  then show "sublist (N @ ''/pkg/logger'') (mainGoContent N)"
    unfolding mainGoContent_lines by (rule sublist_unlines [rotated]) simp
qed

text \<open>
  C3. For every project name, the text the program writes to \<^verbatim>\<open>.env\<close>, read as
  key=value pairs, is exactly the eight keys \<open>APP_NAME\<close>, \<open>SERVER_PORT\<close>, \<open>LOG_FILE\<close>,
  \<open>DB_USER\<close>, \<open>DB_PASSWORD\<close>, \<open>DB_HOST\<close>, \<open>DB_PORT\<close>, \<open>DB_NAME\<close> with the values of the
  template, \<open>SERVER_PORT=8080\<close> among them.
\<close>

theorem env_file_pairs:
  "\<exists>content. generated N ''.env'' = Some content \<and>
     parse_env content =
       [(''APP_NAME'', ''myapi''),
        (''SERVER_PORT'', ''8080''),
        (''LOG_FILE'', ''logs/myapi.log''),
        (''DB_USER'', ''root''),
        (''DB_PASSWORD'', ''password''),
        (''DB_HOST'', ''localhost''),
        (''DB_PORT'', ''5432''),
        (''DB_NAME'', ''mydatabase'')]"
  by (simp add: generated_def files_static parse_env_envFileContent)

text \<open>
  C4, as amended. For every project name \<open>N\<close> without a line feed, the text the program
  writes to \<^verbatim>\<open>Makefile\<close> has exactly the rules \<open>run\<close>, \<open>test\<close> and \<open>migrate\<close>, and the
  recipe of \<open>run\<close> is the one command \<open>go run cmd/N/main.go\<close>, which names the path
  \<open>cmd/N/main\<close>.
\<close>

theorem build_helper_rules:
  assumes "NL \<notin> set N"
  shows "generated N ''Makefile'' = Some (makefileContent N) \<and>
         makefile_rules (makefileContent N) =
           [(''run'', [''go run cmd/'' @ N @ ''/main.go'']),
            (''test'', [''go test ./...'']),
            (''migrate'', [''migrate -path ./migrations -database $(DB_URL) up''])] \<and>
         sublist (''cmd/'' @ N @ ''/main'') (''go run cmd/'' @ N @ ''/main.go'')"
proof -
  have "sublist (''cmd/'' @ N @ ''/main'') (''go run '' @ (''cmd/'' @ N @ ''/main'') @ ''.go'')"
    by (rule sublist_mid)
  then have "sublist (''cmd/'' @ N @ ''/main'') (''go run cmd/'' @ N @ ''/main.go'')"
    by simp
  moreover have "generated N ''Makefile'' = Some (makefileContent N)"
    by (simp add: generated_def files_static)
  ultimately show ?thesis
    by (simp only: makefile_rules_eq [OF assms] simp_thms)
qed

theorem build_helper_rules_witness:
  "NL \<notin> set ''myapi'' \<and>
   map_of (makefile_rules (makefileContent ''myapi'')) ''run'' =
     Some [''go run cmd/myapi/main.go''] \<and>
   map fst (makefile_rules (makefileContent ''myapi'')) = [''run'', ''test'', ''migrate'']"
proof -
  have nl: "NL \<notin> set ''myapi''"
    by (simp add: NL_def)
  from build_helper_rules [OF nl] nl show ?thesis
    by simp
qed

text \<open>
  C4 as it is stated fails for a name with a line feed. The name \<open>a\<close>, line feed, \<open>b\<close> is
  a valid directory name; the run writes the makefile of that name, the recipe of its rule
  \<open>run\<close> is the command \<open>go run cmd/a\<close>, and that command does not name the path
  \<open>cmd/N/main\<close> of the name.
\<close>

theorem build_helper_counterexample:
  "valid_name ''a\<newline>b'' \<and>
   disk (main (GitSucceeds fresh_repository) [''gogo'', ''a\<newline>b''] Map.empty) [''a\<newline>b'', ''Makefile''] =
     Some (File (makefileContent ''a\<newline>b'')) \<and>
   map_of (makefile_rules (makefileContent ''a\<newline>b'')) ''run'' = Some [''go run cmd/a''] \<and>
   \<not> sublist ''cmd/a\<newline>b/main'' ''go run cmd/a''"
proof -
  have v: "valid_name ''a\<newline>b''"
    by (simp add: valid_name_def NAME_MAX_def)
  have t: "tree_closed Map.empty"
    by (simp add: tree_closed_def)
  have "disk (main (GitSucceeds fresh_repository) [''gogo'', ''a\<newline>b''] Map.empty) [''a\<newline>b'', ''Makefile''] =
     Some (File (makefileContent ''a\<newline>b''))"
    by (rule disk_file [OF v t]) (simp_all add: manifest_files_def)
  with v run_recipe_line_feed show ?thesis
    by (simp only: simp_thms)
qed

text \<open>
  C5. Started without an argument (\<^verbatim>\<open>os.Args\<close> holds fewer than two strings), the
  program stops at once with exit status 1, writes a message about the missing project
  name to the standard error stream and nothing to the standard output, and leaves the
  file system as it was.
\<close>

theorem no_argument_fails:
  assumes "length args < 2"
  shows "status (main g args fs) = 1 \<and>
         stdout (main g args fs) = [] \<and>
         stderr (main g args fs) = ''Please provide a project name as an argument.\<newline>'' \<and>
         sublist ''provide a project name'' (stderr (main g args fs)) \<and>
         disk (main g args fs) = fs"
proof -
  have "sublist ''provide a project name''
      (''Please '' @ ''provide a project name'' @ '' as an argument.\<newline>'')"
    by (rule sublist_mid)
  with assms show ?thesis
    by (simp add: main_no_argument)
qed

theorem no_argument_fails_witness:
  "length [''gogo''] < 2 \<and>
   status (main (GitSucceeds fresh_repository) [''gogo''] Map.empty) = 1 \<and>
   stderr (main (GitSucceeds fresh_repository) [''gogo''] Map.empty) =
     ''Please provide a project name as an argument.\<newline>'' \<and>
   disk (main (GitSucceeds fresh_repository) [''gogo''] Map.empty) = Map.empty"
  using no_argument_fails [of "[''gogo'']" "GitSucceeds fresh_repository" Map.empty] by simp

text \<open>
  C6. When the project name leads to a directory that exists already, as on a second run
  with the same name, creating the project directory fails: the program exits with
  status 1 and the message of the failed \<^verbatim>\<open>mkdir\<close>, before it makes any directory or
  file, and the file system stays as it was.
\<close>

theorem existing_directory_fails:
  assumes "os_Stat fs N = Inr Dir"
  shows "status (main g (prog # N # rest) fs) = 1 \<and>
         stdout (main g (prog # N # rest) fs) = [] \<and>
         stderr (main g (prog # N # rest) fs) =
           ''Failed to create project directory: mkdir '' @ N @ '': file exists\<newline>'' \<and>
         disk (main g (prog # N # rest) fs) = fs"
  using assms by (simp add: main_exists)

text \<open>The witness is the second of two runs with the name \<open>dup\<close>.\<close>

theorem existing_directory_fails_witness:
  "os_Stat (disk (main (GitSucceeds fresh_repository) [''gogo'', ''dup''] Map.empty)) ''dup'' =
     Inr Dir \<and>
   status (main (GitSucceeds fresh_repository) [''gogo'', ''dup'']
     (disk (main (GitSucceeds fresh_repository) [''gogo'', ''dup''] Map.empty))) = 1 \<and>
   disk (main (GitSucceeds fresh_repository) [''gogo'', ''dup'']
     (disk (main (GitSucceeds fresh_repository) [''gogo'', ''dup''] Map.empty))) =
   disk (main (GitSucceeds fresh_repository) [''gogo'', ''dup''] Map.empty)"
proof -
  have v: "valid_name ''dup''"
    by (simp add: valid_name_def NAME_MAX_def)
  have t: "tree_closed Map.empty"
    by (simp add: tree_closed_def)
  have "disk (main (GitSucceeds fresh_repository) [''gogo'', ''dup''] Map.empty) [''dup''] =
      map_of (scaffold ''dup'') [''dup'']"
    by (rule disk_below [OF v t]) (simp_all add: below_git_def)
  then have "disk (main (GitSucceeds fresh_repository) [''gogo'', ''dup''] Map.empty) [''dup''] =
      Some Dir"
    by (simp add: scaffold_def)
  with v
  have dup: "os_Stat (disk (main (GitSucceeds fresh_repository) [''gogo'', ''dup''] Map.empty))
      ''dup'' = Inr Dir"
    by (rule stat_valid)
  from dup existing_directory_fails [OF dup, of "GitSucceeds fresh_repository" "''gogo''" "[]"]
  show ?thesis
    by simp
qed

text \<open>
  C7. Of the six generated files only the entry point and the makefile depend on the
  project name. For any two names \<open>N\<close> and \<open>M\<close> the program writes the same text to
  \<^verbatim>\<open>.env\<close>, to \<^verbatim>\<open>.gitignore\<close>, to the logger stub and to the config stub; the two
  makefiles are equal only when the names are, and so are the two entry points.
\<close>

theorem generators_name_dependence:
  "map fst (files N) =
     [Join [''cmd'', N, ''main.go''], ''.env'', ''.gitignore'', ''Makefile'',
      ''pkg/logger/logger.go'', ''pkg/config/config.go''] \<and>
   (\<exists>c. generated N ''.env'' = Some c \<and> generated M ''.env'' = Some c) \<and>
   (\<exists>c. generated N ''.gitignore'' = Some c \<and> generated M ''.gitignore'' = Some c) \<and>
   (\<exists>c. generated N ''pkg/logger/logger.go'' = Some c \<and>
        generated M ''pkg/logger/logger.go'' = Some c) \<and>
   (\<exists>c. generated N ''pkg/config/config.go'' = Some c \<and>
        generated M ''pkg/config/config.go'' = Some c) \<and>
   generated N ''Makefile'' = Some (makefileContent N) \<and>
   generated N (Join [''cmd'', N, ''main.go'']) = Some (mainGoContent N) \<and>
   (makefileContent N = makefileContent M) = (N = M) \<and>
   (mainGoContent N = mainGoContent M) = (N = M)"
proof -
  have names: "map fst (files N) =
     [Join [''cmd'', N, ''main.go''], ''.env'', ''.gitignore'', ''Makefile'',
      ''pkg/logger/logger.go'', ''pkg/config/config.go'']"
    by (simp add: files_def Join_def Clean_def clean_push_def is_rooted_def)
  have env: "\<exists>c. generated N ''.env'' = Some c \<and> generated M ''.env'' = Some c"
    by (simp add: generated_def files_static)
  have ignore: "\<exists>c. generated N ''.gitignore'' = Some c \<and> generated M ''.gitignore'' = Some c"
    by (simp add: generated_def files_static)
  have logger: "\<exists>c. generated N ''pkg/logger/logger.go'' = Some c \<and>
        generated M ''pkg/logger/logger.go'' = Some c"
    by (simp add: generated_def files_static)
  have config: "\<exists>c. generated N ''pkg/config/config.go'' = Some c \<and>
        generated M ''pkg/config/config.go'' = Some c"
    by (simp add: generated_def files_static)
  have makefile: "generated N ''Makefile'' = Some (makefileContent N)"
    by (simp add: generated_def files_static)
  have entry: "generated N (Join [''cmd'', N, ''main.go'']) = Some (mainGoContent N)"
    by (simp only: generated_def files_static)
  have makefile_dep: "(makefileContent N = makefileContent M) = (N = M)"
    by (auto dest: makefileContent_inj)
  have entry_dep: "(mainGoContent N = mainGoContent M) = (N = M)"
    by (auto dest: mainGoContent_inj)
  from names env ignore logger config makefile entry makefile_dep entry_dep show ?thesis
    by (intro conjI)
qed

text \<open>
  C8, as amended. For every project name \<open>N\<close> without a line feed, the recipe of the rule
  \<open>migrate\<close> of the generated makefile uses \<open>$(DB_URL)\<close>, and no line of any of the six
  generated files assigns \<open>DB_URL\<close>: the keys of the environment file are the eight of
  the template, \<open>DB_USER\<close>, \<open>DB_PASSWORD\<close>, \<open>DB_HOST\<close>, \<open>DB_PORT\<close> and \<open>DB_NAME\<close> among
  them, and \<open>DB_URL\<close> is not one of them.
\<close>

theorem db_url_undefined:
  assumes "NL \<notin> set N"
  shows "(\<exists>cmds. map_of (makefile_rules (makefileContent N)) ''migrate'' = Some cmds \<and>
            list_ex (sublist ''$(DB_URL)'') cmds) \<and>
         list_all (\<lambda>content. \<not> assigned ''DB_URL'' content) (map snd (files N)) \<and>
         map fst (parse_env envFileContent) =
           [''APP_NAME'', ''SERVER_PORT'', ''LOG_FILE'', ''DB_USER'', ''DB_PASSWORD'',
            ''DB_HOST'', ''DB_PORT'', ''DB_NAME''] \<and>
         ''DB_URL'' \<notin> set (map fst (parse_env envFileContent))"
proof -
  have "sublist ''$(DB_URL)'' (''migrate -path ./migrations -database '' @ ''$(DB_URL)'' @ '' up'')"
    by (rule sublist_mid)
  then have "sublist ''$(DB_URL)'' ''migrate -path ./migrations -database $(DB_URL) up''"
    by simp
  then have 1: "\<exists>cmds. map_of (makefile_rules (makefileContent N)) ''migrate'' = Some cmds \<and>
            list_ex (sublist ''$(DB_URL)'') cmds"
    by (simp add: makefile_rules_eq [OF assms])
  have 2: "list_all (\<lambda>content. \<not> assigned ''DB_URL'' content) (map snd (files N))"
    by (simp add: files_def static_not_assigned makefile_not_assigned [OF assms]
        mainGo_not_assigned [OF assms])
  have 3: "map fst (parse_env envFileContent) =
           [''APP_NAME'', ''SERVER_PORT'', ''LOG_FILE'', ''DB_USER'', ''DB_PASSWORD'',
            ''DB_HOST'', ''DB_PORT'', ''DB_NAME'']"
    by (simp add: parse_env_envFileContent)
  have 4: "''DB_URL'' \<notin> set (map fst (parse_env envFileContent))"
    by (simp add: parse_env_envFileContent)
  from 1 2 3 4 show ?thesis
    by (intro conjI)
qed

theorem db_url_undefined_witness:
  "NL \<notin> set ''myapi'' \<and>
   \<not> assigned ''DB_URL'' (makefileContent ''myapi'') \<and>
   \<not> assigned ''DB_URL'' envFileContent \<and>
   ''DB_URL'' \<notin> set (map fst (parse_env envFileContent))"
proof -
  have nl: "NL \<notin> set ''myapi''"
    by (simp add: NL_def)
  from db_url_undefined [OF nl] nl show ?thesis
    by (simp add: files_def)
qed

text \<open>
  C8 as it is stated fails for a name with a line feed. The name \<open>x\<close>, line feed,
  \<open>DB_URL=y\<close> is a valid directory name; the run writes the makefile of that name, and
  its third line assigns \<open>DB_URL\<close>.
\<close>

theorem db_url_counterexample:
  "valid_name ''x\<newline>DB_URL=y'' \<and>
   disk (main (GitSucceeds fresh_repository) [''gogo'', ''x\<newline>DB_URL=y''] Map.empty)
     [''x\<newline>DB_URL=y'', ''Makefile''] = Some (File (makefileContent ''x\<newline>DB_URL=y'')) \<and>
   assigned ''DB_URL'' (makefileContent ''x\<newline>DB_URL=y'')"
proof -
  have v: "valid_name ''x\<newline>DB_URL=y''"
    by (simp add: valid_name_def NAME_MAX_def)
  have t: "tree_closed Map.empty"
    by (simp add: tree_closed_def)
  have "disk (main (GitSucceeds fresh_repository) [''gogo'', ''x\<newline>DB_URL=y''] Map.empty)
      [''x\<newline>DB_URL=y'', ''Makefile''] = Some (File (makefileContent ''x\<newline>DB_URL=y''))"
    by (rule disk_file [OF v t]) (simp_all add: manifest_files_def)
  with v assigned_line_feed show ?thesis
    by (simp only: simp_thms)
qed

text \<open>
  C9. For every project name \<open>N\<close>, in the text the program writes to \<^verbatim>\<open>.env\<close> the value
  of \<open>APP_NAME\<close> is \<open>myapi\<close> and the value of \<open>LOG_FILE\<close> is \<open>logs/myapi.log\<close>: fixed
  texts in which \<open>N\<close> plays no part.
\<close>

theorem env_file_fixed_names:
  "\<exists>content. generated N ''.env'' = Some content \<and>
     map_of (parse_env content) ''APP_NAME'' = Some ''myapi'' \<and>
     map_of (parse_env content) ''LOG_FILE'' = Some ''logs/myapi.log''"
  by (simp add: generated_def files_static parse_env_envFileContent)

text \<open>
  C10, as amended. The manifest has no directory \<^verbatim>\<open>logs\<close>, and after a run with a valid
  name \<open>N\<close> nothing is at \<open>N/logs\<close> or below it, although the environment file sets
  \<open>LOG_FILE=logs/myapi.log\<close>. An entry below the project directory and outside
  \<open>N/.git\<close> has \<open>logs\<close> among its names only when the project itself is called \<open>logs\<close>,
  and then it is \<^verbatim>\<open>cmd/logs\<close> or \<^verbatim>\<open>cmd/logs/main.go\<close>.
\<close>

theorem logs_directory_absent:
  assumes "valid_name N" and "tree_closed fs" and "fs [N] = None"
  shows
    "[''logs''] \<notin> set (manifest_dirs N) \<and>
     (\<forall>q. disk (main (GitSucceeds tree) (prog # N # rest) fs) (N # ''logs'' # q) = None) \<and>
     (\<forall>q. \<not> below_git q \<and>
          disk (main (GitSucceeds tree) (prog # N # rest) fs) (N # q) \<noteq> None \<and> ''logs'' \<in> set q \<longrightarrow>
          N = ''logs'' \<and> (q = [''cmd'', ''logs''] \<or> q = [''cmd'', ''logs'', ''main.go'']))"
proof -
  let ?d = "disk (main (GitSucceeds tree) (prog # N # rest) fs)"
  have 1: "[''logs''] \<notin> set (manifest_dirs N)"
    by (simp add: manifest_dirs_def)
  have "\<not> below_git (''logs'' # q)" for q
    by (simp add: below_git_def)
  then have "?d (N # ''logs'' # q) = map_of (scaffold N) (N # ''logs'' # q)" for q
    by (rule disk_below [OF assms])
  moreover have "map_of (scaffold N) (N # ''logs'' # q) = None" for q
    by (simp add: scaffold_below manifest_dirs_def parent_dirs_def manifest_files_def)
  ultimately have 2: "?d (N # ''logs'' # q) = None" for q
    by (simp only:)
  have d: "N = ''logs'' \<and> q = [''cmd'', ''logs'']"
    if "q \<in> set ([] # manifest_dirs N @ parent_dirs @ [[''.git'']])" and "''logs'' \<in> set q" for q
    using that by (auto simp: manifest_dirs_def parent_dirs_def)
  have f: "N = ''logs'' \<and> q = [''cmd'', ''logs'', ''main.go'']"
    if "q \<in> fst ` set (manifest_files N)" and "''logs'' \<in> set q" for q
    using that by (auto simp: manifest_files_def)
  have 3: "N = ''logs'' \<and> (q = [''cmd'', ''logs''] \<or> q = [''cmd'', ''logs'', ''main.go''])"
    if out: "\<not> below_git q" and some': "?d (N # q) \<noteq> None" and logs: "''logs'' \<in> set q" for q
  proof -
    from some' have some: "map_of (scaffold N) (N # q) \<noteq> None"
      by (simp only: disk_below [OF assms out] simp_thms)
    from some obtain n where n: "map_of (scaffold N) (N # q) = Some n"
      by blast
    show ?thesis
    proof (cases n)
      case Dir
      with n have "q \<in> {q. map_of (scaffold N) (N # q) = Some Dir}"
        by simp
      then have "q \<in> set ([] # manifest_dirs N @ parent_dirs @ [[''.git'']])"
        by (simp only: scaffold_dirs_set)
      with logs d [of q] show ?thesis
        by blast
    next
      case (File c)
      with n have "q \<in> {q. \<exists>c. map_of (scaffold N) (N # q) = Some (File c)}"
        by blast
      then have "q \<in> fst ` set (manifest_files N)"
        by (simp only: scaffold_files_set)
      with logs f [of q] show ?thesis
        by blast
    qed
  qed
  from 1 2 3 show ?thesis
    by blast
qed

theorem logs_directory_absent_witness:
  "valid_name ''myapi'' \<and> tree_closed Map.empty \<and>
   disk (main (GitSucceeds fresh_repository) [''gogo'', ''myapi''] Map.empty)
     [''myapi'', ''logs''] = None \<and>
   disk (main (GitSucceeds fresh_repository) [''gogo'', ''myapi''] Map.empty)
     [''myapi'', ''logs'', ''myapi.log''] = None"
proof -
  have v: "valid_name ''myapi''"
    by (simp add: valid_name_def NAME_MAX_def)
  have t: "tree_closed Map.empty"
    by (simp add: tree_closed_def)
  have e: "Map.empty [''myapi''] = None"
    by simp
  from logs_directory_absent [OF v t e, of fresh_repository "''gogo''" "[]"] v t show ?thesis
    by simp
qed

text \<open>
  C10 as it is stated fails for the project name \<open>logs\<close>: the run succeeds and makes
  the directory \<^verbatim>\<open>cmd/logs\<close> below the project directory.
\<close>

theorem logs_component_counterexample:
  "valid_name ''logs'' \<and>
   status (main (GitSucceeds fresh_repository) [''gogo'', ''logs''] Map.empty) = 0 \<and>
   disk (main (GitSucceeds fresh_repository) [''gogo'', ''logs''] Map.empty)
     [''logs'', ''cmd'', ''logs''] = Some Dir \<and>
   ''logs'' \<in> set [''cmd'', ''logs'']"
proof -
  have v: "valid_name ''logs''"
    by (simp add: valid_name_def NAME_MAX_def)
  have t: "tree_closed Map.empty"
    by (simp add: tree_closed_def)
  have e: "Map.empty [''logs''] = None"
    by simp
  from v show ?thesis
    by (simp add: main_success [OF v t e] scaffold_def manifest_dirs_def git_tree_def
        fresh_repository_def)
qed

end
